theory Spec2Isabelle
  imports Main "HOL-Library.Char_ord" "HOL-Library.List_Lexorder" "HOL-Library.Word"
begin

unbundle bit_operations_syntax

section \<open>The application runner of openlight (pkg/runner/runner.go)\<close>

text \<open>
  The runner starts child processes, records each one in a directory of its own under a
  root directory, and derives the status of a record by probing the operating system.
  The theory embeds the functions of \<^verbatim>\<open>runner.go\<close> over an explicit world: the
  entries of the root directory, the process table, and a trace of the signals delivered
  and the processes launched. Results that Go returns as \<^verbatim>\<open>(value, error)\<close> are
  sums, with \<open>Inl\<close> the error.
\<close>

subsection \<open>Constants\<close>

definition StatusRunning :: int where "StatusRunning = 0"
definition StatusExited :: int where "StatusExited = 1"
definition StatusError :: int where "StatusError = 2"

definition SignalInt :: int where "SignalInt = 2"
definition SignalQuit :: int where "SignalQuit = 3"
definition SignalKill :: int where "SignalKill = 9"

definition InstanceInfoFileName :: string where "InstanceInfoFileName = ''info.json''"
definition InstanceLogStderrName :: string where "InstanceLogStderrName = ''stderr.log''"
definition InstanceLogStdoutName :: string where "InstanceLogStdoutName = ''stdout.log''"

text \<open>The message of the error that Go's \<^verbatim>\<open>os\<close> package returns for a process that
  is gone, which the runner compares against.\<close>

definition errFinished :: string where
  "errFinished = ''os: process already finished''"

subsection \<open>Data\<close>

text \<open>\<^verbatim>\<open>AppStartOptions\<close> and \<^verbatim>\<open>AppInstance\<close>, field by field. The time stamp
  is an abstract number.\<close>

record AppStartOptions =
  Args :: "string list"
  WorkDir :: string
  Singleton :: bool
  Background :: bool
  IgnoreSpecArgs :: bool

record AppInstance =
  ID :: string
  Time :: int
  Name :: string
  Command :: string
  Options :: AppStartOptions
  Pid :: int

text \<open>Modelled from the spec: the type \<^verbatim>\<open>RunnerAppSpec\<close>, whose declaration is in a
  file of the package outside the sources at hand. The spec gives an app spec the fields
  Name, Command, WorkDir, Singleton and Args (an ordered sequence of strings); these are
  the fields that \<^verbatim>\<open>runner.go\<close> reads (the prefix keeps them apart from the fields
  of an instance).\<close>

record RunnerAppSpec =
  spec_Name :: string
  spec_Command :: string
  spec_Workdir :: string
  spec_Singleton :: bool
  spec_Args :: "string list"

text \<open>\<^verbatim>\<open>map[string]*RunnerAppSpec\<close>: a key may be absent, or present with a nil
  pointer; the runner treats both alike (\<^verbatim>\<open>appSpec != nil\<close>).\<close>

type_synonym apps = "string \<Rightarrow> RunnerAppSpec option option"

definition lookupApp :: "apps \<Rightarrow> string \<Rightarrow> RunnerAppSpec option" where
  "lookupApp Apps name = (case Apps name of Some (Some appSpec) \<Rightarrow> Some appSpec | _ \<Rightarrow> None)"

datatype error =
    RequireCommand
  | InstanceNotFound
  | ReadInfoFailed string
  | InfoBroken string
  | GetStatusFailed int string
  | StopFailed int string
  | OSError string

subsection \<open>The world\<close>

text \<open>
  A process of the table reacts to a signal it receives: \<open>dies_on p sig\<close> says that it
  terminates on it. \<open>permitted p\<close> says that the caller may signal it at all.
\<close>

record process =
  permitted :: bool
  dies_on :: "int \<Rightarrow> bool"

text \<open>The record file \<^verbatim>\<open>info.json\<close> of an instance directory: it cannot be read
  (or is not there), its bytes do not parse, or they parse to an instance.\<close>

datatype info_file = Unreadable | Broken | Info AppInstance

record instance_dir =
  info :: info_file
  stderr_log :: bool
  stdout_log :: bool

datatype event =
    Signalled int int
  | Launched string "string list" string int

datatype os_error = NotExist | Other string

text \<open>
  \<open>root\<close> is the root directory of the runner: \<open>None\<close> when it does not exist, else
  its entries by name. The other fields are what the environment answers:
  \<open>readdir_err\<close> when the root cannot be listed, \<open>stat_err\<close> for a name whose
  \<^verbatim>\<open>Stat\<close> fails for another reason than absence, \<open>remove_err\<close> for a name whose
  \<^verbatim>\<open>RemoveAll\<close> fails, \<open>no_handle\<close> for a pid whose \<^verbatim>\<open>FindProcess\<close> fails.
  \<open>trace\<close> lists the signals delivered and the processes launched, oldest first.
\<close>

record world =
  root :: "(string \<times> instance_dir) list option"
  readdir_err :: "string option"
  stat_err :: "string \<Rightarrow> string option"
  remove_err :: "string \<Rightarrow> string option"
  procs :: "int \<Rightarrow> process option"
  no_handle :: "int \<Rightarrow> string option"
  trace :: "event list"

definition entries :: "world \<Rightarrow> (string \<times> instance_dir) list" where
  "entries w = (case root w of None \<Rightarrow> [] | Some es \<Rightarrow> es)"

subsection \<open>The file system\<close>

text \<open>\<^verbatim>\<open>ioutil.ReadDir\<close> returns the entries sorted by file name.\<close>

definition os_ReadDir :: "world \<Rightarrow> os_error + (string \<times> instance_dir) list" where
  "os_ReadDir w =
     (case readdir_err w of
        Some err \<Rightarrow> Inl (Other err)
      | None \<Rightarrow> (case root w of None \<Rightarrow> Inl NotExist | Some es \<Rightarrow> Inr (sort_key fst es)))"

text \<open>\<^verbatim>\<open>os.Stat(filepath.Join(rootPath, name))\<close>, returning the error.\<close>

definition os_Stat :: "world \<Rightarrow> string \<Rightarrow> os_error option" where
  "os_Stat w name =
     (case stat_err w name of
        Some err \<Rightarrow> Some (Other err)
      | None \<Rightarrow> if name \<in> fst ` set (entries w) then None else Some NotExist)"

text \<open>
  \<^verbatim>\<open>os.RemoveAll(filepath.Join(rootPath, name))\<close>: an absent path is no error.
  \<^verbatim>\<open>filepath.Join\<close> drops an empty element, so the empty name is the root itself.
  Names are single path elements otherwise.
\<close>

definition os_RemoveAll :: "world \<Rightarrow> string \<Rightarrow> string option \<times> world" where
  "os_RemoveAll w name =
     (case remove_err w name of
        Some err \<Rightarrow> (Some err, w)
      | None \<Rightarrow>
          if name = [] then (None, w\<lparr>root := None\<rparr>)
          else (None, w\<lparr>root := map_option (filter (\<lambda>e. fst e \<noteq> name)) (root w)\<rparr>))"

text \<open>\<^verbatim>\<open>os.MkdirAll\<close> of an instance directory creates the root as well; a directory
  that is there already is left as it is.\<close>

definition os_MkdirAll :: "string option \<Rightarrow> world \<Rightarrow> string \<Rightarrow> string option \<times> world" where
  "os_MkdirAll fails w name =
     (case fails of
        Some err \<Rightarrow> (Some err, w)
      | None \<Rightarrow>
          if name \<in> fst ` set (entries w) then (None, w)
          else (None, w\<lparr>root := Some ((name, \<lparr>info = Unreadable, stderr_log = False,
                                                 stdout_log = False\<rparr>) # entries w)\<rparr>))"

definition update_dir :: "string \<Rightarrow> (instance_dir \<Rightarrow> instance_dir) \<Rightarrow> world \<Rightarrow> world" where
  "update_dir name f w =
     w\<lparr>root := map_option (map (\<lambda>e. if fst e = name then (fst e, f (snd e)) else e)) (root w)\<rparr>"

text \<open>\<^verbatim>\<open>os.Create\<close> of a log file and \<^verbatim>\<open>ioutil.WriteFile\<close> of the record file,
  inside the directory of an instance.\<close>

definition os_Create :: "string option \<Rightarrow> world \<Rightarrow> string \<Rightarrow> string \<Rightarrow> string option \<times> world" where
  "os_Create fails w name file =
     (case fails of
        Some err \<Rightarrow> (Some err, w)
      | None \<Rightarrow>
          (None, update_dir name
             (\<lambda>d. if file = InstanceLogStderrName then d\<lparr>stderr_log := True\<rparr>
                  else if file = InstanceLogStdoutName then d\<lparr>stdout_log := True\<rparr>
                  else d) w))"

definition WriteInfoFile :: "string option \<Rightarrow> world \<Rightarrow> string \<Rightarrow> AppInstance \<Rightarrow> string option \<times> world" where
  "WriteInfoFile fails w name instance =
     (case fails of
        Some err \<Rightarrow> (Some err, w)
      | None \<Rightarrow> (None, update_dir name (\<lambda>d. d\<lparr>info := Info instance\<rparr>) w))"

subsection \<open>Signals\<close>

text \<open>\<^verbatim>\<open>os.FindProcess\<close>: the handle of a pid is the pid.\<close>

definition os_FindProcess :: "world \<Rightarrow> int \<Rightarrow> string + int" where
  "os_FindProcess w pid = (case no_handle w pid of Some err \<Rightarrow> Inl err | None \<Rightarrow> Inr pid)"

text \<open>
  \<^verbatim>\<open>proc.Signal(sig)\<close> of Go's \<^verbatim>\<open>os\<close> package over kill(2). The package refuses
  the handle values -1 and 0 before the system call, with errors of its own. After that,
  a pid with no process gives the error \<^verbatim>\<open>os: process already finished\<close>, a process the
  caller may not signal gives the system's error, and otherwise the signal is delivered.
  Signal 0 delivers nothing (it only checks); signal 9 cannot be ignored; on another
  signal the process terminates when it is one that does. Termination is immediate in
  this model.
\<close>

definition errReleased :: string where
  "errReleased = ''os: process already released''"

definition errNotInitialized :: string where
  "errNotInitialized = ''os: process not initialized''"

definition proc_Signal :: "world \<Rightarrow> int \<Rightarrow> int \<Rightarrow> string option \<times> world" where
  "proc_Signal w pid sig =
     (if pid = - 1 then (Some errReleased, w)
      else if pid = 0 then (Some errNotInitialized, w)
      else case procs w pid of
        None \<Rightarrow> (Some errFinished, w)
      | Some p \<Rightarrow>
          if \<not> permitted p then (Some ''operation not permitted'', w)
          else if sig = 0 then (None, w)
          else if sig = SignalKill \<or> dies_on p sig
            then (None, w\<lparr>procs := (procs w)(pid := None),
                          trace := trace w @ [Signalled pid sig]\<rparr>)
            else (None, w\<lparr>trace := trace w @ [Signalled pid sig]\<rparr>))"

subsection \<open>The methods of an instance\<close>

definition GetStatus :: "world \<Rightarrow> AppInstance \<Rightarrow> int \<times> string option" where
  "GetStatus w this =
     (case os_FindProcess w (Pid this) of
        Inl err \<Rightarrow> (StatusExited, None)
      | Inr proc \<Rightarrow>
          (case fst (proc_Signal w proc 0) of
             Some err \<Rightarrow>
               if err = ''os: process already finished'' then (StatusExited, None)
               else (StatusError, Some err)
           | None \<Rightarrow> (StatusRunning, None)))"

definition Stop :: "world \<Rightarrow> AppInstance \<Rightarrow> string option \<times> world" where
  "Stop w this =
     (case os_FindProcess w (Pid this) of
        Inl err \<Rightarrow> (None, w)
      | Inr proc \<Rightarrow>
          (case proc_Signal w proc SignalInt of
             (Some err, w') \<Rightarrow>
               if err = ''os: process already finished'' then (None, w') else (Some err, w')
           | (None, w') \<Rightarrow> (None, w')))"

definition Quit :: "world \<Rightarrow> AppInstance \<Rightarrow> string option \<times> world" where
  "Quit w this =
     (case os_FindProcess w (Pid this) of
        Inl err \<Rightarrow> (None, w)
      | Inr proc \<Rightarrow>
          (case proc_Signal w proc SignalQuit of
             (Some err, w') \<Rightarrow>
               if err = ''os: process already finished'' then (None, w') else (Some err, w')
           | (None, w') \<Rightarrow> (None, w')))"

definition Kill :: "world \<Rightarrow> AppInstance \<Rightarrow> string option \<times> world" where
  "Kill w this =
     (case os_FindProcess w (Pid this) of
        Inl err \<Rightarrow> (None, w)
      | Inr proc \<Rightarrow>
          (case proc_Signal w proc SignalKill of
             (Some err, w') \<Rightarrow>
               if err = ''os: process already finished'' then (None, w') else (Some err, w')
           | (None, w') \<Rightarrow> (None, w')))"

subsection \<open>Loading the instances\<close>

text \<open>
  The loop of \<^verbatim>\<open>loadInstances\<close> over the entries read, with the slice it appends to.
  A filter is \<open>None\<close> where the caller passes \<^verbatim>\<open>nil\<close>.
\<close>

fun loadLoop :: "(string \<Rightarrow> bool) option \<Rightarrow> (AppInstance \<Rightarrow> bool) option \<Rightarrow>
    (string \<times> instance_dir) list \<Rightarrow> AppInstance list \<Rightarrow> error + AppInstance list" where
  "loadLoop idFilterFunc instanceFilterFunc [] instances = Inr instances"
| "loadLoop idFilterFunc instanceFilterFunc (e # infos) instances =
     (if (case idFilterFunc of None \<Rightarrow> False | Some f \<Rightarrow> \<not> f (fst e))
      then loadLoop idFilterFunc instanceFilterFunc infos instances
      else case info (snd e) of
             Unreadable \<Rightarrow> Inl (ReadInfoFailed (fst e))
           | Broken \<Rightarrow> Inl (InfoBroken (fst e))
           | Info instance \<Rightarrow>
               if (case instanceFilterFunc of None \<Rightarrow> True | Some f \<Rightarrow> f instance)
               then loadLoop idFilterFunc instanceFilterFunc infos (instances @ [instance])
               else loadLoop idFilterFunc instanceFilterFunc infos instances)"

definition loadInstances :: "world \<Rightarrow> (string \<Rightarrow> bool) option \<Rightarrow> (AppInstance \<Rightarrow> bool) option \<Rightarrow>
    error + AppInstance list" where
  "loadInstances w idFilterFunc instanceFilterFunc =
     (case os_ReadDir w of
        Inl NotExist \<Rightarrow> Inr []
      | Inl (Other err) \<Rightarrow> Inl (OSError err)
      | Inr infos \<Rightarrow> loadLoop idFilterFunc instanceFilterFunc infos [])"

definition List_instances :: "world \<Rightarrow> bool \<Rightarrow> error + AppInstance list" where
  "List_instances w onlyRunning =
     (if \<not> onlyRunning then loadInstances w None None
      else loadInstances w None (Some (\<lambda>instance. fst (GetStatus w instance) = StatusRunning)))"

definition GetInstance :: "world \<Rightarrow> string \<Rightarrow> error + AppInstance option" where
  "GetInstance w id' =
     (case loadInstances w (Some (\<lambda>id0. id0 = id')) None of
        Inl err \<Rightarrow> Inl err
      | Inr [] \<Rightarrow> Inr None
      | Inr (instance # _) \<Rightarrow> Inr (Some instance))"

definition GetInstancesByName :: "apps \<Rightarrow> world \<Rightarrow> string \<Rightarrow> error + AppInstance list" where
  "GetInstancesByName Apps w name =
     (let name = (case lookupApp Apps name of Some appSpec \<Rightarrow> spec_Name appSpec | None \<Rightarrow> name)
      in loadInstances w None (Some (\<lambda>instance. Name instance = name)))"

definition GetRunningInstancesByName :: "apps \<Rightarrow> world \<Rightarrow> string \<Rightarrow> error + AppInstance list" where
  "GetRunningInstancesByName Apps w name =
     (let name = (case lookupApp Apps name of Some appSpec \<Rightarrow> spec_Name appSpec | None \<Rightarrow> name)
      in loadInstances w None
           (Some (\<lambda>instance. if Name instance = name
                              then fst (GetStatus w instance) = StatusRunning else False)))"

subsection \<open>Removing instances\<close>

definition RemoveInstance :: "world \<Rightarrow> string \<Rightarrow> string option \<times> world" where
  "RemoveInstance w id' = os_RemoveAll w id'"

definition Clean :: "world \<Rightarrow> string \<Rightarrow> string option \<times> world" where
  "Clean w id' = os_RemoveAll w id'"

fun cleanLoop :: "world \<Rightarrow> AppInstance list \<Rightarrow> error option \<times> world" where
  "cleanLoop w [] = (None, w)"
| "cleanLoop w (instance # instances) =
     (if fst (GetStatus w instance) = StatusExited
      then (case RemoveInstance w (ID instance) of
              (Some err, w') \<Rightarrow> (Some (OSError err), w')
            | (None, w') \<Rightarrow> cleanLoop w' instances)
      else cleanLoop w instances)"

definition CleanAll :: "world \<Rightarrow> error option \<times> world" where
  "CleanAll w =
     (case List_instances w False of
        Inl err \<Rightarrow> (Some err, w)
      | Inr instances \<Rightarrow> cleanLoop w instances)"

subsection \<open>Loading the specs\<close>

text \<open>
  One of the three spec files: it is not there (\<^verbatim>\<open>os.Stat\<close> fails), it does not
  load (\<^verbatim>\<open>LoadRunnerSpecFromFile\<close>, which is not part of the sources at hand, returns an
  error), or it loads to the map \<^verbatim>\<open>spec.Apps\<close>.
\<close>

datatype spec_file = NoFile | LoadFailed string | Loaded apps

text \<open>The body of the loop over the file names: a file that is absent or fails to load
  (a warning is logged) leaves \<open>apps\<close> as it is; the entries of a loaded file are
  assigned key by key.\<close>

definition mergeSpecFile :: "apps \<Rightarrow> spec_file \<Rightarrow> apps" where
  "mergeSpecFile apps file =
     (case file of
        NoFile \<Rightarrow> apps
      | LoadFailed err \<Rightarrow> apps
      | Loaded spec_Apps \<Rightarrow> apps ++ spec_Apps)"

text \<open>The files are read in the order global, user, project.\<close>

definition loadRunnerSpec :: "spec_file \<Rightarrow> spec_file \<Rightarrow> spec_file \<Rightarrow> apps" where
  "loadRunnerSpec global user project = foldl mergeSpecFile Map.empty [global, user, project]"

subsection \<open>Identifiers\<close>

text \<open>\<^verbatim>\<open>hex.EncodeToString\<close>: two digits for a byte, the high half first.\<close>

definition hextable :: string where "hextable = ''0123456789abcdef''"

definition EncodeToString :: "8 word list \<Rightarrow> string" where
  "EncodeToString src =
     concat (map (\<lambda>v. [hextable ! unat (drop_bit 4 v), hextable ! unat (v AND 15)]) src)"

text \<open>
  The loop of \<^verbatim>\<open>getNextRandomID\<close> has no bound. The list gives the outcome of each
  \<^verbatim>\<open>rand.Read\<close> in turn (an error, or the bytes read into the slice of 8 zero bytes);
  when the list is used up without a return the result is \<open>None\<close>: the function has
  not returned.
\<close>

fun getNextRandomID :: "world \<Rightarrow> (string + 8 word list) list \<Rightarrow> (error + string) option" where
  "getNextRandomID w [] = None"
| "getNextRandomID w (Inl err # reads) = Some (Inl (OSError err))"
| "getNextRandomID w (Inr bytes # reads) =
     (let idBytes = take 8 (bytes @ replicate 8 0);
          idStr = EncodeToString idBytes
      in case os_Stat w idStr of
           Some NotExist \<Rightarrow> Some (Inr idStr)
         | Some (Other err) \<Rightarrow> getNextRandomID w reads
         | None \<Rightarrow> getNextRandomID w reads)"

subsection \<open>Start\<close>

text \<open>What the environment answers during one call of \<^verbatim>\<open>Start\<close>: the random reads,
  the failure (if any) of each step, the pid and the process that \<^verbatim>\<open>cmd.Start\<close>
  creates, and the time.\<close>

record start_env =
  rand_reads :: "(string + 8 word list) list"
  mkdir_err :: "string option"
  create_stderr_err :: "string option"
  create_stdout_err :: "string option"
  cmd_Start :: "string + int \<times> process"
  release_err :: "string option"
  time_Now :: int
  marshal_err :: "string option"
  write_err :: "string option"

text \<open>Lines 186 to 204: the parameters after the spec of the name, if there is one.\<close>

definition resolveSpec :: "apps \<Rightarrow> string \<Rightarrow> string \<Rightarrow> AppStartOptions \<Rightarrow>
    string \<times> string \<times> AppStartOptions" where
  "resolveSpec Apps name command options =
     (case lookupApp Apps name of
        None \<Rightarrow> (name, command, options)
      | Some appSpec \<Rightarrow>
          (let name = spec_Name appSpec;
               command = (if command = [] then spec_Command appSpec else command);
               options = (if WorkDir options = [] then options\<lparr>WorkDir := spec_Workdir appSpec\<rparr>
                          else options);
               options = (if Singleton options = False \<and> spec_Singleton appSpec
                          then options\<lparr>Singleton := spec_Singleton appSpec\<rparr> else options);
               options = (if \<not> IgnoreSpecArgs options \<and> length (spec_Args appSpec) > 0
                          then options\<lparr>Args := spec_Args appSpec @ Args options\<rparr> else options)
           in (name, command, options)))"

text \<open>Lines 216 to 225: the loop over the instances of the name.\<close>

fun stopLoop :: "world \<Rightarrow> AppInstance list \<Rightarrow> error option \<times> world" where
  "stopLoop w [] = (None, w)"
| "stopLoop w (instance # instances) =
     (case GetStatus w instance of
        (status, Some err) \<Rightarrow> (Some (GetStatusFailed (Pid instance) err), w)
      | (status, None) \<Rightarrow>
          if status = StatusRunning
          then (case Stop w instance of
                  (Some err, w') \<Rightarrow> (Some (StopFailed (Pid instance) err), w')
                | (None, w') \<Rightarrow> stopLoop w' instances)
          else stopLoop w instances)"

text \<open>Lines 209 to 226.\<close>

definition ensureSingleton :: "apps \<Rightarrow> world \<Rightarrow> string \<Rightarrow> error option \<times> world" where
  "ensureSingleton Apps w name =
     (case GetInstancesByName Apps w name of
        Inl err \<Rightarrow> (Some err, w)
      | Inr instances \<Rightarrow> stopLoop w instances)"

text \<open>A return with \<^verbatim>\<open>succeed\<close> still false: the deferred function removes the
  instance path and drops the error of the removal.\<close>

definition failed :: "string \<Rightarrow> world \<Rightarrow> string \<Rightarrow> (error + AppInstance) \<times> world" where
  "failed err w id' = (Inl (OSError err), snd (os_RemoveAll w id'))"

text \<open>
  Lines 232 to 308, from the creation of the instance directory on. A write of the record
  file that fails leaves no record that could be read.
\<close>

definition launchInstance :: "start_env \<Rightarrow> string \<Rightarrow> string \<Rightarrow> string \<Rightarrow> AppStartOptions \<Rightarrow>
    world \<Rightarrow> (error + AppInstance) \<times> world" where
  "launchInstance env id' name command options w =
     (case os_MkdirAll (mkdir_err env) w id' of
        (Some err, w) \<Rightarrow> (Inl (OSError err), w)
      | (None, w) \<Rightarrow>
     (case os_Create (create_stderr_err env) w id' InstanceLogStderrName of
        (Some err, w) \<Rightarrow> failed err w id'
      | (None, w) \<Rightarrow>
     (case os_Create (create_stdout_err env) w id' InstanceLogStdoutName of
        (Some err, w) \<Rightarrow> failed err w id'
      | (None, w) \<Rightarrow>
     (case cmd_Start env of
        Inl err \<Rightarrow> failed err w id'
      | Inr (pid, p) \<Rightarrow>
     (let w = w\<lparr>procs := (procs w)(pid \<mapsto> p),
                trace := trace w @ [Launched command (Args options) (WorkDir options) pid]\<rparr>
      in case (if Background options then release_err env else None) of
           Some err \<Rightarrow> failed err w id'
         | None \<Rightarrow>
     (let instance = \<lparr>ID = id', Time = time_Now env, Name = name, Command = command,
                       Options = options, Pid = pid\<rparr>
      in case marshal_err env of
           Some err \<Rightarrow> failed err w id'
         | None \<Rightarrow>
     (case WriteInfoFile (write_err env) w id' instance of
        (Some err, w) \<Rightarrow> failed err w id'
      | (None, w) \<Rightarrow> (Inr instance, w))))))))"

definition Start :: "apps \<Rightarrow> start_env \<Rightarrow> string \<Rightarrow> string \<Rightarrow> AppStartOptions \<Rightarrow> world \<Rightarrow>
    ((error + AppInstance) \<times> world) option" where
  "Start Apps env name command options w =
     (case resolveSpec Apps name command options of
        (name, command, options) \<Rightarrow>
          if command = [] then Some (Inl RequireCommand, w)
          else (case (if Singleton options then ensureSingleton Apps w name else (None, w)) of
                  (Some err, w) \<Rightarrow> Some (Inl err, w)
                | (None, w) \<Rightarrow>
                    (case getNextRandomID w (rand_reads env) of
                       None \<Rightarrow> None
                     | Some (Inl err) \<Rightarrow> Some (Inl err, w)
                     | Some (Inr id') \<Rightarrow> Some (launchInstance env id' name command options w))))"

subsection \<open>Stop and Restart of the runner\<close>

definition Runner_Stop :: "world \<Rightarrow> string \<Rightarrow> bool \<Rightarrow> error option \<times> world" where
  "Runner_Stop w id' clean =
     (case GetInstance w id' of
        Inl err \<Rightarrow> (Some err, w)
      | Inr None \<Rightarrow> (Some InstanceNotFound, w)
      | Inr (Some instance) \<Rightarrow>
          (case Stop w instance of
             (Some err, w) \<Rightarrow> (Some (OSError err), w)
           | (None, w) \<Rightarrow>
               if clean
               then (case Clean w (ID instance) of
                       (Some err, w) \<Rightarrow> (Some (OSError err), w)
                     | (None, w) \<Rightarrow> (None, w))
               else (None, w)))"

definition Restart :: "apps \<Rightarrow> start_env \<Rightarrow> string \<Rightarrow> bool \<Rightarrow> world \<Rightarrow>
    ((error + AppInstance) \<times> world) option" where
  "Restart Apps env id' clean w =
     (case GetInstance w id' of
        Inl err \<Rightarrow> Some (Inl err, w)
      | Inr None \<Rightarrow> Some (Inl InstanceNotFound, w)
      | Inr (Some instance) \<Rightarrow>
          (case Stop w instance of
             (Some err, w) \<Rightarrow> Some (Inl (OSError err), w)
           | (None, w) \<Rightarrow>
               (case (if clean then Clean w (ID instance) else (None, w)) of
                  (Some err, w) \<Rightarrow> Some (Inl (OSError err), w)
                | (None, w) \<Rightarrow>
                    Start Apps env (Name instance) (Command instance) (Options instance) w)))"

subsection \<open>Notions for the properties\<close>

text \<open>The record that an entry of the root holds, if its record file reads and parses.\<close>

definition record_of :: "string \<times> instance_dir \<Rightarrow> AppInstance option" where
  "record_of e = (case info (snd e) of Info instance \<Rightarrow> Some instance | _ \<Rightarrow> None)"

text \<open>A filter that is \<^verbatim>\<open>nil\<close> lets everything pass.\<close>

definition passes :: "('a \<Rightarrow> bool) option \<Rightarrow> 'a \<Rightarrow> bool" where
  "passes filterFunc x = (case filterFunc of None \<Rightarrow> True | Some f \<Rightarrow> f x)"

text \<open>Two worlds with the same files and the same answers of the file system.\<close>

definition same_files :: "world \<Rightarrow> world \<Rightarrow> bool" where
  "same_files w w' \<longleftrightarrow> root w' = root w \<and> readdir_err w' = readdir_err w \<and>
     stat_err w' = stat_err w \<and> remove_err w' = remove_err w \<and> no_handle w' = no_handle w"

text \<open>
  The store as \<^verbatim>\<open>Start\<close> builds it: the names of the entries are distinct and not
  empty, and a record that parses carries the name of its directory as its ID.
\<close>

definition wellformed_store :: "world \<Rightarrow> bool" where
  "wellformed_store w \<longleftrightarrow>
     distinct (map fst (entries w)) \<and>
     list_all (\<lambda>e. fst e \<noteq> [] \<and>
                   (case record_of e of None \<Rightarrow> True | Some instance \<Rightarrow> ID instance = fst e))
       (entries w)"

subsection \<open>Example worlds\<close>

text \<open>Three kinds of process: one that terminates on a signal, one that goes on
  running on every signal it can ignore, and one of another user.\<close>

definition ex_sleeper :: process where
  "ex_sleeper = \<lparr>permitted = True, dies_on = (\<lambda>sig. True)\<rparr>"

definition ex_stubborn :: process where
  "ex_stubborn = \<lparr>permitted = True, dies_on = (\<lambda>sig. False)\<rparr>"

definition ex_foreign :: process where
  "ex_foreign = \<lparr>permitted = False, dies_on = (\<lambda>sig. True)\<rparr>"

text \<open>A world with no root directory and no process, in which nothing fails.\<close>

definition ex_world :: world where
  "ex_world = \<lparr>root = None, readdir_err = None, stat_err = (\<lambda>name. None),
     remove_err = (\<lambda>name. None), procs = Map.empty, no_handle = (\<lambda>pid. None), trace = []\<rparr>"

definition ex_options :: AppStartOptions where
  "ex_options = \<lparr>Args = [''600''], WorkDir = [], Singleton = True, Background = True,
     IgnoreSpecArgs = False\<rparr>"

text \<open>An environment in which no step fails: the random bytes read are \<open>b\<close> eight times,
  and the process launched is \<open>p\<close> with the pid \<open>pid\<close>.\<close>

definition ex_env :: "8 word \<Rightarrow> int \<Rightarrow> process \<Rightarrow> start_env" where
  "ex_env b pid p = \<lparr>rand_reads = [Inr [b, b, b, b, b, b, b, b]], mkdir_err = None,
     create_stderr_err = None, create_stdout_err = None, cmd_Start = Inr (pid, p),
     release_err = None, time_Now = 0, marshal_err = None, write_err = None\<rparr>"

definition ex_instance :: "string \<Rightarrow> int \<Rightarrow> AppInstance" where
  "ex_instance id' pid = \<lparr>ID = id', Time = 0, Name = ''echo'', Command = ''sleep'',
     Options = ex_options, Pid = pid\<rparr>"

definition ex_dir :: "info_file \<Rightarrow> instance_dir" where
  "ex_dir f = \<lparr>info = f, stderr_log = True, stdout_log = True\<rparr>"

definition ex_global_spec :: spec_file where
  "ex_global_spec = Loaded [''svc'' \<mapsto> Some \<lparr>spec_Name = ''svc'', spec_Command = ''serve'',
     spec_Workdir = ''/b'', spec_Singleton = True, spec_Args = [''-v'']\<rparr>]"

definition ex_project_spec :: spec_file where
  "ex_project_spec = Loaded [''svc'' \<mapsto> Some \<lparr>spec_Name = ''svc'', spec_Command = ''serve'',
     spec_Workdir = ''/a'', spec_Singleton = False, spec_Args = []\<rparr>]"

definition ex_apps :: apps where
  "ex_apps = [''echo'' \<mapsto> Some \<lparr>spec_Name = ''echo'', spec_Command = ''sleep'',
     spec_Workdir = ''/tmp'', spec_Singleton = True, spec_Args = [''-n'']\<rparr>]"

text \<open>The record and the world after \<^verbatim>\<open>echo\<close> was started in the empty world with
  the random bytes 01, as the process \<open>p\<close> with the pid 100; and the record of a second
  start with the random bytes 02 and the pid 200.\<close>

definition ex_first :: AppInstance where
  "ex_first = \<lparr>ID = ''0101010101010101'', Time = 0, Name = ''echo'', Command = ''sleep'',
     Options = \<lparr>Args = [''-n'', ''600''], WorkDir = ''/tmp'', Singleton = True,
                 Background = True, IgnoreSpecArgs = False\<rparr>,
     Pid = 100\<rparr>"

definition ex_started :: "process \<Rightarrow> world" where
  "ex_started p = ex_world\<lparr>root := Some [(''0101010101010101'', ex_dir (Info ex_first))],
     procs := [100 \<mapsto> p],
     trace := [Launched ''sleep'' [''-n'', ''600''] ''/tmp'' 100]\<rparr>"

definition ex_second :: AppInstance where
  "ex_second = \<lparr>ID = ''0202020202020202'', Time = 0, Name = ''echo'', Command = ''sleep'',
     Options = \<lparr>Args = [''-n'', ''600''], WorkDir = ''/tmp'', Singleton = True,
                 Background = True, IgnoreSpecArgs = False\<rparr>,
     Pid = 200\<rparr>"

text \<open>An environment in which the launch fails.\<close>

definition ex_env_nolaunch :: start_env where
  "ex_env_nolaunch = (ex_env 1 100 ex_sleeper)\<lparr>cmd_Start := Inl ''exec: not found''\<rparr>"

text \<open>The record of a restart of the first instance with the random bytes 02 and the
  pid 200.\<close>

definition ex_restarted :: AppInstance where
  "ex_restarted = \<lparr>ID = ''0202020202020202'', Time = 0, Name = ''echo'', Command = ''sleep'',
     Options = \<lparr>Args = [''-n'', ''-n'', ''600''], WorkDir = ''/tmp'', Singleton = True,
                 Background = True, IgnoreSpecArgs = False\<rparr>,
     Pid = 200\<rparr>"

text \<open>A store with one record that parses and one that does not.\<close>

definition ex_corrupt :: world where
  "ex_corrupt = ex_world\<lparr>root := Some [(''0101010101010101'', ex_dir (Info ex_first)),
                                         (''0202020202020202'', ex_dir Broken)]\<rparr>"

text \<open>A store of three instances: the first is running, the other two have exited.\<close>

definition ex_third :: AppInstance where
  "ex_third = \<lparr>ID = ''0303030303030303'', Time = 0, Name = ''echo'', Command = ''sleep'',
     Options = \<lparr>Args = [''-n'', ''600''], WorkDir = ''/tmp'', Singleton = True,
                 Background = True, IgnoreSpecArgs = False\<rparr>,
     Pid = 300\<rparr>"

definition ex_three :: world where
  "ex_three = ex_world\<lparr>root := Some [(''0101010101010101'', ex_dir (Info ex_first)),
                                       (''0202020202020202'', ex_dir (Info ex_second)),
                                       (''0303030303030303'', ex_dir (Info ex_third))],
     procs := [100 \<mapsto> ex_sleeper]\<rparr>"

text \<open>The world after the second start, which has stopped the first instance.\<close>

definition ex_both :: world where
  "ex_both = ex_world\<lparr>root := Some [(''0202020202020202'', ex_dir (Info ex_second)),
                                      (''0101010101010101'', ex_dir (Info ex_first))],
     procs := [200 \<mapsto> ex_sleeper],
     trace := [Launched ''sleep'' [''-n'', ''600''] ''/tmp'' 100, Signalled 100 SignalInt,
               Launched ''sleep'' [''-n'', ''600''] ''/tmp'' 200]\<rparr>"

section \<open>Properties\<close>

subsection \<open>Status and signals\<close>

lemmas const_defs = StatusRunning_def StatusExited_def StatusError_def
  SignalInt_def SignalQuit_def SignalKill_def errFinished_def errReleased_def
  errNotInitialized_def

lemmas signal_defs = Stop_def Quit_def Kill_def os_FindProcess_def proc_Signal_def

lemmas ex_defs = ex_world_def ex_sleeper_def ex_stubborn_def ex_foreign_def ex_options_def
  ex_env_def ex_instance_def ex_dir_def ex_apps_def ex_first_def ex_started_def ex_second_def
  ex_env_nolaunch_def ex_restarted_def ex_corrupt_def ex_both_def

lemma proc_Signal_0: "snd (proc_Signal w pid 0) = w"
  by (simp add: proc_Signal_def split: option.splits)

text \<open>The status in terms of the world: there is no other case.\<close>

lemma GetStatus_cases:
  "GetStatus w this =
     (if no_handle w (Pid this) \<noteq> None then (StatusExited, None)
      else if Pid this = - 1 then (StatusError, Some ''os: process already released'')
      else if Pid this = 0 then (StatusError, Some ''os: process not initialized'')
      else case procs w (Pid this) of
             None \<Rightarrow> (StatusExited, None)
           | Some p \<Rightarrow> if permitted p then (StatusRunning, None)
                       else (StatusError, Some ''operation not permitted''))"
  by (simp add: GetStatus_def os_FindProcess_def proc_Signal_def errFinished_def
      errReleased_def errNotInitialized_def split: option.splits)

lemma Stop_cases:
  "Stop w this =
     (if no_handle w (Pid this) \<noteq> None then (None, w)
      else if Pid this = - 1 then (Some ''os: process already released'', w)
      else if Pid this = 0 then (Some ''os: process not initialized'', w)
      else case procs w (Pid this) of
             None \<Rightarrow> (None, w)
           | Some p \<Rightarrow>
               if \<not> permitted p then (Some ''operation not permitted'', w)
               else if dies_on p SignalInt
               then (None, w\<lparr>procs := (procs w)(Pid this := None),
                             trace := trace w @ [Signalled (Pid this) SignalInt]\<rparr>)
               else (None, w\<lparr>trace := trace w @ [Signalled (Pid this) SignalInt]\<rparr>))"
  by (auto simp add: signal_defs const_defs split: option.splits)

text \<open>The definitions that a run on a given world unfolds.\<close>

lemmas run_defs = Start_def resolveSpec_def lookupApp_def ensureSingleton_def
  GetInstancesByName_def GetRunningInstancesByName_def loadInstances_def os_ReadDir_def
  EncodeToString_def hextable_def os_Stat_def entries_def launchInstance_def os_MkdirAll_def
  os_Create_def update_dir_def WriteInfoFile_def failed_def Let_def InstanceLogStderrName_def
  InstanceLogStdoutName_def os_RemoveAll_def Restart_def GetInstance_def Clean_def
  GetStatus_cases Stop_cases

text \<open>
  C2, as the code has it. A record whose pid belongs to no process, and is neither of the
  handle values 0 and -1 that the os package refuses, has the status Exited, with no
  error. The status Error comes with the error of the probe, and it is returned exactly
  when a handle was found and the probe failed with another message than that of a
  finished process: for a process that the caller may not signal, and for the pids 0
  and -1.
\<close>

theorem GetStatus_absent_process:
  "(procs w (Pid this) = None \<and> Pid this \<noteq> 0 \<and> Pid this \<noteq> - 1 \<longrightarrow>
      GetStatus w this = (StatusExited, None)) \<and>
   (fst (GetStatus w this) = StatusError \<longrightarrow>
      (\<exists>err. GetStatus w this = (StatusError, Some err) \<and>
             os_FindProcess w (Pid this) = Inr (Pid this) \<and>
             fst (proc_Signal w (Pid this) 0) = Some err \<and> err \<noteq> errFinished \<and>
             (Pid this = 0 \<or> Pid this = - 1 \<or> procs w (Pid this) \<noteq> None))) \<and>
   (os_FindProcess w (Pid this) = Inr (Pid this) \<and>
      (\<exists>err. fst (proc_Signal w (Pid this) 0) = Some err \<and> err \<noteq> errFinished)
      \<longrightarrow> fst (GetStatus w this) = StatusError) \<and>
   (no_handle w (Pid this) = None \<and> (Pid this = 0 \<or> Pid this = - 1) \<longrightarrow>
      fst (GetStatus w this) = StatusError)"
  by (auto simp add: GetStatus_def os_FindProcess_def proc_Signal_def const_defs
      split: option.splits if_splits)

theorem GetStatus_absent_process_witness:
  "procs ex_world (Pid (ex_instance ''0a'' 4242)) = None \<and>
   Pid (ex_instance ''0a'' 4242) \<noteq> 0 \<and> Pid (ex_instance ''0a'' 4242) \<noteq> - 1 \<and>
   GetStatus ex_world (ex_instance ''0a'' 4242) = (StatusExited, None) \<and>
   fst (GetStatus (ex_world\<lparr>procs := [7 \<mapsto> ex_foreign]\<rparr>) (ex_instance ''0a'' 7)) = StatusError \<and>
   GetStatus (ex_world\<lparr>procs := [7 \<mapsto> ex_foreign]\<rparr>) (ex_instance ''0a'' 7) =
     (StatusError, Some ''operation not permitted'')"
  using GetStatus_absent_process [of ex_world "ex_instance ''0a'' 4242"]
    GetStatus_absent_process [of "ex_world\<lparr>procs := [7 \<mapsto> ex_foreign]\<rparr>" "ex_instance ''0a'' 7"]
  by (simp add: ex_defs GetStatus_cases const_defs)

text \<open>A record with the pid 0, which belongs to no process: the status is Error.\<close>

theorem GetStatus_pid_zero_counterexample:
  "procs ex_world (Pid (ex_instance ''0a'' 0)) = None \<and>
   GetStatus ex_world (ex_instance ''0a'' 0) =
     (StatusError, Some ''os: process not initialized'')"
  by (simp add: ex_defs GetStatus_cases)

text \<open>
  C9, as the code has it. Stop, Quit and Kill of an instance for which no handle is found,
  or whose pid belongs to no process and is neither of the handle values 0 and -1 that
  the os package refuses, return no error and leave the world as it is, so that a second
  call returns what the first did; in general a call repeated returns the same as the
  first. An error is returned exactly when a handle was found and the delivery failed with
  another message than that of a finished process; the pids 0 and -1 are such a case. The
  effect of a call is that of one delivery: a process that does not terminate on the
  signal is still in the process table when Stop or Quit has returned without error.
\<close>

theorem Stop_Quit_Kill_absent_process:
  "((procs w (Pid this) = None \<and> Pid this \<noteq> 0 \<and> Pid this \<noteq> - 1) \<or>
    no_handle w (Pid this) \<noteq> None \<longrightarrow>
      Stop w this = (None, w) \<and> Quit w this = (None, w) \<and> Kill w this = (None, w) \<and>
      Stop (snd (Stop w this)) this = (None, w)) \<and>
   fst (Stop (snd (Stop w this)) this) = fst (Stop w this) \<and>
   fst (Quit (snd (Quit w this)) this) = fst (Quit w this) \<and>
   fst (Kill (snd (Kill w this)) this) = fst (Kill w this) \<and>
   (fst (Stop w this) = Some err \<longleftrightarrow>
      os_FindProcess w (Pid this) = Inr (Pid this) \<and>
      fst (proc_Signal w (Pid this) SignalInt) = Some err \<and> err \<noteq> errFinished) \<and>
   (fst (Quit w this) = Some err \<longleftrightarrow>
      os_FindProcess w (Pid this) = Inr (Pid this) \<and>
      fst (proc_Signal w (Pid this) SignalQuit) = Some err \<and> err \<noteq> errFinished) \<and>
   (fst (Kill w this) = Some err \<longleftrightarrow>
      os_FindProcess w (Pid this) = Inr (Pid this) \<and>
      fst (proc_Signal w (Pid this) SignalKill) = Some err \<and> err \<noteq> errFinished) \<and>
   (no_handle w (Pid this) = None \<and> (Pid this = 0 \<or> Pid this = - 1) \<longrightarrow>
      fst (Stop w this) \<noteq> None \<and> fst (Quit w this) \<noteq> None \<and> fst (Kill w this) \<noteq> None) \<and>
   (snd (Stop w this) = w \<or> snd (Stop w this) = snd (proc_Signal w (Pid this) SignalInt)) \<and>
   (snd (Quit w this) = w \<or> snd (Quit w this) = snd (proc_Signal w (Pid this) SignalQuit)) \<and>
   (snd (Kill w this) = w \<or> snd (Kill w this) = snd (proc_Signal w (Pid this) SignalKill)) \<and>
   (procs w (Pid this) = Some p \<and> permitted p \<and> no_handle w (Pid this) = None \<and>
    Pid this \<noteq> 0 \<and> Pid this \<noteq> - 1 \<longrightarrow>
      (\<not> dies_on p SignalInt \<longrightarrow>
         fst (Stop w this) = None \<and> procs (snd (Stop w this)) (Pid this) = Some p) \<and>
      (\<not> dies_on p SignalQuit \<longrightarrow>
         fst (Quit w this) = None \<and> procs (snd (Quit w this)) (Pid this) = Some p))"
  by (auto simp add: signal_defs const_defs split: option.splits)

theorem Stop_Quit_Kill_absent_process_witness:
  "procs ex_world (Pid (ex_instance ''0a'' 4242)) = None \<and>
   Pid (ex_instance ''0a'' 4242) \<noteq> 0 \<and> Pid (ex_instance ''0a'' 4242) \<noteq> - 1 \<and>
   fst (Stop ex_world (ex_instance ''0a'' 4242)) = None \<and>
   fst (Stop (snd (Stop ex_world (ex_instance ''0a'' 4242))) (ex_instance ''0a'' 4242)) = None \<and>
   fst (Quit ex_world (ex_instance ''0a'' 4242)) = None \<and>
   fst (Kill ex_world (ex_instance ''0a'' 4242)) = None \<and>
   fst (Stop (ex_world\<lparr>procs := [7 \<mapsto> ex_foreign]\<rparr>) (ex_instance ''0a'' 7)) =
     Some ''operation not permitted'' \<and>
   procs (ex_world\<lparr>procs := [7 \<mapsto> ex_stubborn]\<rparr>) (Pid (ex_instance ''0a'' 7)) =
     Some ex_stubborn \<and>
   permitted ex_stubborn \<and> \<not> dies_on ex_stubborn SignalInt \<and>
   fst (Stop (ex_world\<lparr>procs := [7 \<mapsto> ex_stubborn]\<rparr>) (ex_instance ''0a'' 7)) = None \<and>
   procs (snd (Stop (ex_world\<lparr>procs := [7 \<mapsto> ex_stubborn]\<rparr>) (ex_instance ''0a'' 7))) 7 =
     Some ex_stubborn"
  using Stop_Quit_Kill_absent_process [of ex_world "ex_instance ''0a'' 4242"]
    Stop_Quit_Kill_absent_process [of "ex_world\<lparr>procs := [7 \<mapsto> ex_foreign]\<rparr>"
      "ex_instance ''0a'' 7" "''operation not permitted''"]
    Stop_Quit_Kill_absent_process [of "ex_world\<lparr>procs := [7 \<mapsto> ex_stubborn]\<rparr>"
      "ex_instance ''0a'' 7" _ ex_stubborn]
  by (simp add: ex_defs signal_defs const_defs)

text \<open>A record with the pid 0, which belongs to no process: Stop, Quit and Kill return
  the error of the os package, the second Stop as well.\<close>

theorem Stop_pid_zero_counterexample:
  "procs ex_world (Pid (ex_instance ''0a'' 0)) = None \<and>
   fst (Stop ex_world (ex_instance ''0a'' 0)) = Some ''os: process not initialized'' \<and>
   fst (Stop (snd (Stop ex_world (ex_instance ''0a'' 0))) (ex_instance ''0a'' 0)) =
     Some ''os: process not initialized'' \<and>
   fst (Quit ex_world (ex_instance ''0a'' 0)) = Some ''os: process not initialized'' \<and>
   fst (Kill ex_world (ex_instance ''0a'' 0)) = Some ''os: process not initialized''"
  by (simp add: ex_defs signal_defs const_defs)

subsection \<open>Specs\<close>

text \<open>
  C7. The specs of the global, the user and the project file are merged in that order,
  and an entry of a later file replaces the entry of the same name of an earlier one as
  a whole: the entry looked up under a name is that of the project file if it has one,
  else that of the user file if it has one, else that of the global file.
\<close>

theorem loadRunnerSpec_later_overrides:
  "loadRunnerSpec global user project name =
     (case (case project of Loaded m \<Rightarrow> m name | _ \<Rightarrow> None) of
        Some appSpec \<Rightarrow> Some appSpec
      | None \<Rightarrow>
          (case (case user of Loaded m \<Rightarrow> m name | _ \<Rightarrow> None) of
             Some appSpec \<Rightarrow> Some appSpec
           | None \<Rightarrow> (case global of Loaded m \<Rightarrow> m name | _ \<Rightarrow> None)))"
  by (simp add: loadRunnerSpec_def mergeSpecFile_def map_add_def
      split: spec_file.splits option.splits)

theorem loadRunnerSpec_later_overrides_witness:
  "lookupApp (loadRunnerSpec ex_global_spec NoFile ex_project_spec) ''svc'' =
     Some \<lparr>spec_Name = ''svc'', spec_Command = ''serve'', spec_Workdir = ''/a'',
           spec_Singleton = False, spec_Args = []\<rparr>"
  using loadRunnerSpec_later_overrides [of ex_global_spec NoFile ex_project_spec "''svc''"]
  by (simp add: lookupApp_def ex_global_spec_def ex_project_spec_def)

subsection \<open>Files\<close>

lemma entries_simps [simp]:
  "entries (w\<lparr>procs := ps\<rparr>) = entries w"
  "entries (w\<lparr>trace := tr\<rparr>) = entries w"
  "entries (w\<lparr>root := r\<rparr>) = (case r of None \<Rightarrow> [] | Some es \<Rightarrow> es)"
  by (simp_all add: entries_def)

lemma map_other_name:
  "name \<notin> fst ` set es \<Longrightarrow> map (\<lambda>e. if fst e = name then g e else e) es = es"
  by (rule map_idI) force

lemma filter_other_name:
  "name \<notin> fst ` set es \<Longrightarrow> filter (\<lambda>e. fst e \<noteq> name) es = es"
  by (rule filter_True) force

lemma update_dir_head:
  "root w = Some ((name, d) # es) \<Longrightarrow> name \<notin> fst ` set es \<Longrightarrow>
   update_dir name f w = w\<lparr>root := Some ((name, f d) # es)\<rparr>"
  by (simp add: update_dir_def map_other_name)

lemma os_RemoveAll_head:
  "root w = Some ((name, d) # es) \<Longrightarrow> name \<notin> fst ` set es \<Longrightarrow> name \<noteq> [] \<Longrightarrow>
   remove_err w name = None \<Longrightarrow>
   os_RemoveAll w name = (None, w\<lparr>root := Some es\<rparr>)"
  by (simp add: os_RemoveAll_def filter_other_name)

lemma same_files_refl [simp]: "same_files w w"
  by (simp add: same_files_def)

lemma same_files_entries: "same_files w w' \<Longrightarrow> entries w' = entries w"
  by (simp add: same_files_def entries_def)

lemma Stop_same_files: "same_files w (snd (Stop w this))"
  by (simp add: Stop_cases same_files_def split: option.splits)

lemma stopLoop_same_files: "same_files w (snd (stopLoop w instances))"
proof (induction instances arbitrary: w)
  case Nil
  then show ?case by simp
next
  case (Cons i instances)
  show ?case
    using Cons.IH [of w] Cons.IH [of "snd (Stop w i)"] Stop_same_files [of w i]
    by (auto simp add: same_files_def split: prod.splits option.splits)
qed

lemma ensureSingleton_same_files: "same_files w (snd (ensureSingleton Apps w name))"
  by (simp add: ensureSingleton_def stopLoop_same_files split: sum.splits)

subsection \<open>Loading\<close>

lemma loadLoop_bad:
  "\<exists>e\<in>set es. passes idF (fst e) \<and> record_of e = None \<Longrightarrow> isl (loadLoop idF instF es acc)"
proof (induction es arbitrary: acc)
  case Nil
  then show ?case by simp
next
  case (Cons e es)
  then show ?case
    by (cases "info (snd e)") (auto simp add: passes_def record_of_def split: option.splits)
qed

lemma loadLoop_good:
  "\<forall>e\<in>set es. passes idF (fst e) \<longrightarrow> record_of e \<noteq> None \<Longrightarrow>
   loadLoop idF instF es acc =
     Inr (acc @ filter (passes instF)
                  (map (the \<circ> record_of) (filter (\<lambda>e. passes idF (fst e)) es)))"
proof (induction es arbitrary: acc)
  case Nil
  then show ?case by simp
next
  case (Cons e es)
  then show ?case
    by (cases "info (snd e)") (auto simp add: passes_def record_of_def split: option.splits)
qed

lemma loadLoop_Inr_all_good:
  assumes "loadLoop idF instF es acc = Inr insts"
  shows "\<forall>e\<in>set es. passes idF (fst e) \<longrightarrow> record_of e \<noteq> None"
proof (rule ccontr)
  assume "\<not> ?thesis"
  then have "\<exists>e\<in>set es. passes idF (fst e) \<and> record_of e = None"
    by auto
  from loadLoop_bad [OF this, of instF acc] assms show False
    by simp
qed

lemma loadInstances_cases:
  "loadInstances w idF instF =
     (case readdir_err w of
        Some err \<Rightarrow> Inl (OSError err)
      | None \<Rightarrow> (case root w of None \<Rightarrow> Inr []
                 | Some es \<Rightarrow> loadLoop idF instF (sort_key fst es) []))"
  by (simp add: loadInstances_def os_ReadDir_def split: option.splits)

text \<open>A listing that succeeds, in terms of the entries.\<close>

lemma loadInstances_Inr:
  assumes "loadInstances w idF instF = Inr insts"
  shows "readdir_err w = None \<and>
     (\<forall>e\<in>set (entries w). passes idF (fst e) \<longrightarrow> record_of e \<noteq> None) \<and>
     insts = filter (passes instF)
               (map (the \<circ> record_of)
                  (filter (\<lambda>e. passes idF (fst e)) (sort_key fst (entries w))))"
proof (cases "root w")
  case None
  with assms show ?thesis
    by (simp add: loadInstances_cases entries_def split: option.splits)
next
  case (Some es)
  with assms have rd: "readdir_err w = None"
    and load: "loadLoop idF instF (sort_key fst es) [] = Inr insts"
    by (simp_all add: loadInstances_cases split: option.splits)
  from loadLoop_Inr_all_good [OF load]
  have good: "\<forall>e\<in>set (sort_key fst es). passes idF (fst e) \<longrightarrow> record_of e \<noteq> None" .
  from loadLoop_good [OF good, of instF "[]"] load
  have "insts = filter (passes instF)
               (map (the \<circ> record_of) (filter (\<lambda>e. passes idF (fst e)) (sort_key fst es)))"
    by simp
  with rd good Some show ?thesis
    by (simp add: entries_def)
qed

lemma GetInstance_cases:
  "GetInstance w id' =
     (case loadInstances w (Some (\<lambda>id0. id0 = id')) None of
        Inl err \<Rightarrow> Inl err
      | Inr insts \<Rightarrow> (case insts of [] \<Rightarrow> Inr None | i # _ \<Rightarrow> Inr (Some i)))"
  by (simp add: GetInstance_def split: sum.splits list.splits)

lemma GetInstance_Some:
  assumes "GetInstance w id' = Inr (Some old)"
  shows "\<exists>e\<in>set (entries w). fst e = id' \<and> record_of e = Some old"
proof -
  from assms obtain rest where
    load: "loadInstances w (Some (\<lambda>id0. id0 = id')) None = Inr (old # rest)"
    by (cases "loadInstances w (Some (\<lambda>id0. id0 = id')) None")
       (simp_all add: GetInstance_cases split: list.splits)
  from loadInstances_Inr [OF load]
  have good: "\<forall>e\<in>set (entries w). fst e = id' \<longrightarrow> record_of e \<noteq> None"
    and eq: "old # rest =
       map (the \<circ> record_of) (filter (\<lambda>e. fst e = id') (sort_key fst (entries w)))"
    by (simp_all add: passes_def)
  have "old \<in> set (old # rest)" by simp
  then have "old \<in> set (map (the \<circ> record_of)
      (filter (\<lambda>e. fst e = id') (sort_key fst (entries w))))"
    by (simp only: eq)
  then obtain e where e: "e \<in> set (entries w)" "fst e = id'" "old = the (record_of e)"
    by auto
  with good have "record_of e = Some old"
    by auto
  with e show ?thesis by blast
qed


lemma loadInstances_bad:
  assumes "e \<in> set (entries w)" and "record_of e = None" and "passes idF (fst e)"
  shows "isl (loadInstances w idF instF)"
proof (cases "readdir_err w")
  case (Some err)
  then show ?thesis by (simp add: loadInstances_cases)
next
  case None
  from assms(1) obtain es where root: "root w = Some es" and mem: "e \<in> set es"
    by (cases "root w") (simp_all add: entries_def)
  from mem assms(2,3)
  have "\<exists>e\<in>set (sort_key fst es). passes idF (fst e) \<and> record_of e = None"
    by auto
  from loadLoop_bad [OF this, of instF "[]"] None root show ?thesis
    by (simp add: loadInstances_cases)
qed

lemma loadInstances_good:
  assumes "readdir_err w = None"
      and "\<forall>e\<in>set (entries w). passes idF (fst e) \<longrightarrow> record_of e \<noteq> None"
  shows "loadInstances w idF instF =
     Inr (filter (passes instF)
            (map (the \<circ> record_of)
               (filter (\<lambda>e. passes idF (fst e)) (sort_key fst (entries w)))))"
proof (cases "root w")
  case None
  with assms(1) show ?thesis
    by (simp add: loadInstances_cases entries_def)
next
  case (Some es)
  with assms(2)
  have "\<forall>e\<in>set (sort_key fst es). passes idF (fst e) \<longrightarrow> record_of e \<noteq> None"
    by (simp add: entries_def)
  from loadLoop_good [OF this, of instF "[]"] assms(1) Some show ?thesis
    by (simp add: loadInstances_cases entries_def)
qed

lemma passes_None [simp]: "passes None x"
  by (simp add: passes_def)

text \<open>
  C4, as the code has it. When the record of some entry of the root cannot be read or does
  not parse, List, GetInstancesByName, GetRunningInstancesByName return an error and no
  list, and CleanAll returns an error and removes nothing. GetInstance of an identifier
  reads the entries of that name only: it returns an error when the record of such an
  entry is the bad one, and it returns no error when the root can be listed and the
  records of the entries of that name parse, whatever the other records are.
\<close>

theorem corrupt_record_fails_enumeration:
  assumes "e \<in> set (entries w)" and "record_of e = None"
  shows "isl (List_instances w onlyRunning) \<and>
         isl (GetInstancesByName Apps w name) \<and>
         isl (GetRunningInstancesByName Apps w name) \<and>
         (\<exists>err. CleanAll w = (Some err, w)) \<and>
         (fst e = id' \<longrightarrow> isl (GetInstance w id')) \<and>
         (readdir_err w = None \<and>
            (\<forall>e'\<in>set (entries w). fst e' = id' \<longrightarrow> record_of e' \<noteq> None)
          \<longrightarrow> \<not> isl (GetInstance w id'))"
proof -
  note bad = loadInstances_bad [OF assms]
  have 1: "isl (List_instances w onlyRunning)"
    using bad [of None] by (simp add: List_instances_def)
  have 2: "isl (GetInstancesByName Apps w name)"
    using bad [of None] by (simp add: GetInstancesByName_def Let_def)
  have 3: "isl (GetRunningInstancesByName Apps w name)"
    using bad [of None] by (simp add: GetRunningInstancesByName_def Let_def)
  have "isl (List_instances w False)"
    using bad [of None] by (simp add: List_instances_def)
  then have 4: "\<exists>err. CleanAll w = (Some err, w)"
    by (cases "List_instances w False") (simp_all add: CleanAll_def)
  have 5: "isl (GetInstance w id')" if "fst e = id'"
    using bad [of "Some (\<lambda>id0. id0 = id')" None] that
    by (cases "loadInstances w (Some (\<lambda>id0. id0 = id')) None")
       (simp_all add: GetInstance_cases passes_def)
  have 6: "\<not> isl (GetInstance w id')"
    if "readdir_err w = None"
      and "\<forall>e'\<in>set (entries w). fst e' = id' \<longrightarrow> record_of e' \<noteq> None"
    using loadInstances_good [of w "Some (\<lambda>id0. id0 = id')" None] that
    by (simp add: GetInstance_cases passes_def split: list.splits)
  from 1 2 3 4 5 6 show ?thesis by blast
qed

theorem corrupt_record_fails_enumeration_witness:
  "(''0202020202020202'', ex_dir Broken) \<in> set (entries ex_corrupt) \<and>
   record_of (''0202020202020202'', ex_dir Broken) = None \<and>
   isl (List_instances ex_corrupt False) \<and>
   isl (GetInstancesByName ex_apps ex_corrupt ''echo'') \<and>
   fst (CleanAll ex_corrupt) \<noteq> None \<and> snd (CleanAll ex_corrupt) = ex_corrupt \<and>
   isl (GetInstance ex_corrupt ''0202020202020202'') \<and>
   \<not> isl (GetInstance ex_corrupt ''0101010101010101'')"
proof -
  have mem: "(''0202020202020202'', ex_dir Broken) \<in> set (entries ex_corrupt)"
    by (simp add: ex_corrupt_def entries_def)
  have bad: "record_of (''0202020202020202'', ex_dir Broken) = None"
    by (simp add: record_of_def ex_dir_def)
  have rd: "readdir_err ex_corrupt = None"
    by (simp add: ex_corrupt_def ex_world_def)
  have good: "\<forall>e'\<in>set (entries ex_corrupt).
      fst e' = ''0101010101010101'' \<longrightarrow> record_of e' \<noteq> None"
    by (simp add: ex_corrupt_def entries_def record_of_def ex_dir_def)
  from corrupt_record_fails_enumeration [OF mem bad, of False ex_apps "''echo''"
      "''0202020202020202''"]
    corrupt_record_fails_enumeration [OF mem bad, of False ex_apps "''echo''"
      "''0101010101010101''"] mem bad rd good
  show ?thesis by auto
qed


text \<open>GetInstance of the good instance succeeds next to the corrupt record.\<close>

theorem corrupt_record_GetInstance_counterexample:
  "(''0202020202020202'', ex_dir Broken) \<in> set (entries ex_corrupt) \<and>
   record_of (''0202020202020202'', ex_dir Broken) = None \<and>
   GetInstance ex_corrupt ''0101010101010101'' = Inr (Some ex_first)"
  by (simp add: run_defs ex_defs ex_corrupt_def record_of_def)


subsection \<open>Identifiers\<close>

lemma length_EncodeToString: "length (EncodeToString src) = 2 * length src"
  by (induction src) (simp_all add: EncodeToString_def)

text \<open>An identifier that is returned is 16 characters long and names no entry of the
  root.\<close>

lemma getNextRandomID_fresh:
  "getNextRandomID w reads = Some (Inr id') \<Longrightarrow>
     id' \<notin> fst ` set (entries w) \<and> stat_err w id' = None \<and> length id' = 16"
proof (induction w reads rule: getNextRandomID.induct)
  case (1 w)
  then show ?case by simp
next
  case (2 w err reads)
  then show ?case by simp
next
  case (3 w bytes reads)
  then show ?case
    by (auto simp add: Let_def os_Stat_def length_EncodeToString
        split: option.splits os_error.splits if_splits)
qed

lemma getNextRandomID_cong:
  "entries w1 = entries w \<Longrightarrow> stat_err w1 = stat_err w \<Longrightarrow>
   getNextRandomID w1 reads = getNextRandomID w reads"
proof (induction reads)
  case Nil
  then show ?case by simp
next
  case (Cons r reads)
  then show ?case
    by (cases r) (auto simp add: Let_def os_Stat_def split: option.splits os_error.splits)
qed

text \<open>The loop returns as soon as a read yields bytes whose encoding names no entry.\<close>

lemma getNextRandomID_returns:
  assumes "Inr bytes \<in> set reads"
      and "os_Stat w (EncodeToString (take 8 (bytes @ replicate 8 0))) = Some NotExist"
  shows "getNextRandomID w reads \<noteq> None"
  using assms
proof (induction reads)
  case Nil
  then show ?case by simp
next
  case (Cons r reads)
  show ?case
  proof (cases r)
    case (Inl err)
    then show ?thesis by simp
  next
    case (Inr bs)
    show ?thesis
    proof (cases "os_Stat w (EncodeToString (take 8 (bs @ replicate 8 0)))")
      case None
      with Inr Cons show ?thesis by (auto simp add: Let_def)
    next
      case (Some e)
      with Inr Cons show ?thesis by (cases e) (auto simp add: Let_def)
    qed
  qed
qed

subsection \<open>Start\<close>

text \<open>A launch under a fresh name that succeeds: the record returned and the world
  it leaves.\<close>

lemma launchInstance_Inr:
  assumes "launchInstance env id' name command options w = (Inr instance, w')"
      and "id' \<notin> fst ` set (entries w)"
  shows "\<exists>pid p. cmd_Start env = Inr (pid, p) \<and> write_err env = None \<and>
     instance = \<lparr>ID = id', Time = time_Now env, Name = name, Command = command,
                  Options = options, Pid = pid\<rparr> \<and>
     w' = w\<lparr>root := Some ((id', \<lparr>info = Info instance, stderr_log = True, stdout_log = True\<rparr>)
                          # entries w),
             procs := (procs w)(pid \<mapsto> p),
             trace := trace w @ [Launched command (Args options) (WorkDir options) pid]\<rparr>"
  using assms
  unfolding launchInstance_def failed_def os_Create_def WriteInfoFile_def
     Let_def InstanceLogStderrName_def InstanceLogStdoutName_def
  by (auto split: option.splits sum.splits prod.splits if_splits
       simp: os_MkdirAll_def update_dir_head)

text \<open>A launch under a fresh name that fails after the directory was made, where the
  removal is not refused: the entries are those of before.\<close>

lemma launchInstance_Inl:
  assumes "launchInstance env id' name command options w = (Inl err, w')"
      and "id' \<notin> fst ` set (entries w)" and "id' \<noteq> []" and "remove_err w id' = None"
      and "mkdir_err env = None"
  shows "root w' = Some (entries w)"
  using assms
  unfolding launchInstance_def failed_def os_Create_def WriteInfoFile_def
     Let_def InstanceLogStderrName_def InstanceLogStdoutName_def
  by (auto split: option.splits sum.splits prod.splits if_splits
       simp: os_MkdirAll_def update_dir_head os_RemoveAll_head)

lemma Start_Inr:
  assumes "Start Apps env name command options w = Some (Inr instance, w')"
      and "resolveSpec Apps name command options = (rname, rcommand, roptions)"
  shows "\<exists>w1 id'. rcommand \<noteq> [] \<and>
      (if Singleton roptions then ensureSingleton Apps w rname else (None, w)) = (None, w1) \<and>
      getNextRandomID w1 (rand_reads env) = Some (Inr id') \<and>
      launchInstance env id' rname rcommand roptions w1 = (Inr instance, w')"
  using assms
  by (auto simp add: Start_def split: prod.splits if_splits option.splits sum.splits)






lemma launchInstance_Inr_env:
  assumes "launchInstance env id' name command options w = (Inr inst, w')"
  shows "create_stderr_err env = None \<and> create_stdout_err env = None \<and>
     \<not> isl (cmd_Start env) \<and> (Background options \<longrightarrow> release_err env = None) \<and>
     marshal_err env = None \<and> write_err env = None"
  using assms
  unfolding launchInstance_def failed_def os_Create_def WriteInfoFile_def Let_def os_MkdirAll_def
  by (auto split: option.splits sum.splits prod.splits if_splits)

lemma launchInstance_Inr_entries:
  assumes "launchInstance env id' name command options w = (Inr inst, w')"
      and "id' \<notin> fst ` set (entries w)"
  shows "ID inst = id' \<and> write_err env = None \<and>
      entries w' = (id', \<lparr>info = Info inst, stderr_log = True, stdout_log = True\<rparr>)
                     # entries w"
  using launchInstance_Inr [OF assms(1) assms(2)]
  by auto

lemma launchInstance_Inl_entries:
  assumes "launchInstance env id' name command options w = (Inl err, w')"
      and "id' \<notin> fst ` set (entries w)" and "id' \<noteq> []" and "remove_err w id' = None"
  shows "entries w' = entries w"
proof (cases "mkdir_err env")
  case None
  from launchInstance_Inl [OF assms(1) assms(2-4) None]
  show ?thesis by (simp add: entries_def)
next
  case (Some e)
  with assms(1) have "w' = w"
    by (simp add: launchInstance_def os_MkdirAll_def)
  then show ?thesis by simp
qed

lemma launchInstance_fresh:
  assumes "launchInstance env id' name command options w = (result, w')"
      and "id' \<notin> fst ` set (entries w)" and "id' \<noteq> []" and "remove_err w id' = None"
  shows "(case result of
            Inl err \<Rightarrow> entries w' = entries w
          | Inr instance \<Rightarrow> ID instance = id' \<and> write_err env = None \<and>
              entries w' = (id', \<lparr>info = Info instance, stderr_log = True, stdout_log = True\<rparr>)
                             # entries w) \<and>
         (create_stderr_err env \<noteq> None \<or> create_stdout_err env \<noteq> None \<or>
          isl (cmd_Start env) \<or> (Background options \<and> release_err env \<noteq> None) \<or>
          marshal_err env \<noteq> None \<or> write_err env \<noteq> None \<longrightarrow> isl result)"
proof (cases result)
  case (Inl err)
  with launchInstance_Inl_entries [OF _ assms(2-4)] assms(1) show ?thesis
    by simp
next
  case (Inr inst)
  with launchInstance_Inr_entries [OF _ assms(2)] launchInstance_Inr_env assms(1) show ?thesis
    by simp
qed

lemma resolveSpec_Background:
  "resolveSpec Apps name command options = (rname, rcommand, roptions) \<Longrightarrow>
   Background roptions = Background options"
  by (auto simp add: resolveSpec_def Let_def split: option.splits if_splits)

text \<open>Start, with the first two steps named.\<close>

lemma Start_steps:
  assumes "resolveSpec Apps name command options = (rname, rcommand, roptions)"
      and "(if Singleton roptions then ensureSingleton Apps w rname else (None, w)) = (e1, w1)"
  shows "Start Apps env name command options w =
      (if rcommand = [] then Some (Inl RequireCommand, w)
       else case e1 of
              Some err \<Rightarrow> Some (Inl err, w1)
            | None \<Rightarrow>
                (case getNextRandomID w1 (rand_reads env) of
                   None \<Rightarrow> None
                 | Some (Inl err) \<Rightarrow> Some (Inl err, w1)
                 | Some (Inr id') \<Rightarrow> Some (launchInstance env id' rname rcommand roptions w1)))"
  by (simp add: Start_def assms split: option.splits)

text \<open>
  C3. Let the identifier that Start allocates be \<open>id'\<close>, and let the file system not
  refuse to remove that path. When Start returns an error, the root has no entry of that
  name and its entries are those of before; when Start returns an instance, the write of
  the record file has succeeded and the entry of that name holds the record returned. A
  failure of the creation of a log file, of the launch, of the release or of the writing
  of the record makes Start return an error.
\<close>

theorem Start_failure_removes_directory:
  assumes "Start Apps env name command options w = Some (result, w')"
      and "getNextRandomID w (rand_reads env) = Some (Inr id')"
      and "remove_err w id' = None"
  shows "(case result of
            Inl err \<Rightarrow> id' \<notin> fst ` set (entries w') \<and> entries w' = entries w
          | Inr instance \<Rightarrow> ID instance = id' \<and> write_err env = None \<and>
              entries w' = (id', \<lparr>info = Info instance, stderr_log = True, stdout_log = True\<rparr>)
                             # entries w) \<and>
         (create_stderr_err env \<noteq> None \<or> create_stdout_err env \<noteq> None \<or>
          isl (cmd_Start env) \<or> (Background options \<and> release_err env \<noteq> None) \<or>
          marshal_err env \<noteq> None \<or> write_err env \<noteq> None \<longrightarrow> isl result)"
proof -
  obtain rname rcommand roptions where
    res: "resolveSpec Apps name command options = (rname, rcommand, roptions)"
    by (cases "resolveSpec Apps name command options") auto
  note bg = resolveSpec_Background [OF res]
  obtain e1 w1 where
    r1: "(if Singleton roptions then ensureSingleton Apps w rname else (None, w)) = (e1, w1)"
    by (cases "if Singleton roptions then ensureSingleton Apps w rname else (None, w)") auto
  have "same_files w (snd (if Singleton roptions then ensureSingleton Apps w rname else (None, w)))"
    by (simp add: ensureSingleton_same_files)
  then have sf: "same_files w w1"
    by (simp only: r1 snd_conv)
  note ent = same_files_entries [OF sf]
  from sf have se: "stat_err w1 = stat_err w" and re: "remove_err w1 = remove_err w"
    by (simp_all add: same_files_def)
  from getNextRandomID_fresh [OF assms(2)]
  have fresh: "id' \<notin> fst ` set (entries w)" and ne: "id' \<noteq> []" by auto
  note start = Start_steps [OF res r1, of env]
  have id1: "getNextRandomID w1 (rand_reads env) = Some (Inr id')"
    using getNextRandomID_cong [OF ent se] assms(2) by simp
  show ?thesis
  proof (cases "rcommand = []")
    case True
    with assms(1) start have "result = Inl RequireCommand" "w' = w"
      by simp_all
    with fresh show ?thesis by simp
  next
    case False
    show ?thesis
    proof (cases e1)
      case (Some err)
      with assms(1) start False have "result = Inl err" "w' = w1"
        by simp_all
      with fresh ent show ?thesis by simp
    next
      case None
      with assms(1) start False id1
      have launch: "launchInstance env id' rname rcommand roptions w1 = (result, w')"
        by simp
      have "id' \<notin> fst ` set (entries w1)" "remove_err w1 id' = None"
        using fresh assms(3) ent re by simp_all
      from launchInstance_fresh [OF launch this(1) ne this(2)]
      show ?thesis
        using fresh ent bg
        by (cases result) simp_all
    qed
  qed
qed

lemma ex_nolaunch_start:
  "Start ex_apps ex_env_nolaunch ''echo'' [] ex_options ex_world =
     Some (Inl (OSError ''exec: not found''), ex_world\<lparr>root := Some []\<rparr>)"
  by (simp add: run_defs ex_defs)

lemma ex_nolaunch_id:
  "getNextRandomID ex_world (rand_reads ex_env_nolaunch) = Some (Inr ''0101010101010101'')"
  by (simp add: run_defs ex_defs)

theorem Start_failure_removes_directory_witness:
  "Start ex_apps ex_env_nolaunch ''echo'' [] ex_options ex_world =
     Some (Inl (OSError ''exec: not found''), ex_world\<lparr>root := Some []\<rparr>) \<and>
   getNextRandomID ex_world (rand_reads ex_env_nolaunch) = Some (Inr ''0101010101010101'') \<and>
   remove_err ex_world ''0101010101010101'' = None \<and>
   isl (cmd_Start ex_env_nolaunch) \<and>
   ''0101010101010101'' \<notin> fst ` set (entries (ex_world\<lparr>root := Some []\<rparr>)) \<and>
   entries (ex_world\<lparr>root := Some []\<rparr>) = entries ex_world"
  using Start_failure_removes_directory [OF ex_nolaunch_start ex_nolaunch_id]
    ex_nolaunch_start ex_nolaunch_id
  by (simp add: ex_world_def ex_env_nolaunch_def entries_def)

subsection \<open>Restart\<close>

lemma Restart_steps:
  assumes "GetInstance w id' = Inr (Some old)" and "Stop w old = (None, w1)"
  shows "Restart Apps env id' clean w =
     (if clean
      then (case Clean w1 (ID old) of
              (Some err, w2) \<Rightarrow> Some (Inl (OSError err), w2)
            | (None, w2) \<Rightarrow> Start Apps env (Name old) (Command old) (Options old) w2)
      else Start Apps env (Name old) (Command old) (Options old) w1)"
  by (simp add: Restart_def assms)

lemma Restart_Inr:
  assumes "Restart Apps env id' clean w = Some (Inr new, w')"
  shows "\<exists>old w1. GetInstance w id' = Inr (Some old) \<and> Stop w old = (None, w1) \<and>
     (if clean
      then (\<exists>w2. Clean w1 (ID old) = (None, w2) \<and>
              Start Apps env (Name old) (Command old) (Options old) w2 = Some (Inr new, w'))
      else Start Apps env (Name old) (Command old) (Options old) w1 = Some (Inr new, w'))"
proof (cases "GetInstance w id'")
  case (Inl err)
  with assms show ?thesis by (simp add: Restart_def)
next
  case (Inr found)
  show ?thesis
  proof (cases found)
    case None
    with Inr assms show ?thesis by (simp add: Restart_def)
  next
    case (Some old)
    with Inr have get: "GetInstance w id' = Inr (Some old)" by simp
    obtain e1 w1 where stop: "Stop w old = (e1, w1)" by (cases "Stop w old") auto
    show ?thesis
    proof (cases e1)
      case (Some err)
      with get stop assms show ?thesis by (simp add: Restart_def)
    next
      case None
      with stop have stop': "Stop w old = (None, w1)" by simp
      note steps = Restart_steps [OF get stop', of Apps env clean]
      show ?thesis
      proof (cases clean)
        case False
        with steps assms get stop' show ?thesis by simp
      next
        case True
        obtain e2 w2 where cl: "Clean w1 (ID old) = (e2, w2)" by (cases "Clean w1 (ID old)") auto
        with steps assms True have "e2 = None"
          by (cases e2) simp_all
        with cl steps assms True get stop' show ?thesis by simp
      qed
    qed
  qed
qed

lemma Start_Inr_entries:
  assumes "Start Apps env name command options w = Some (Inr inst, w')"
  shows "ID inst \<notin> fst ` set (entries w) \<and> length (ID inst) = 16 \<and>
     entries w' = (ID inst, \<lparr>info = Info inst, stderr_log = True, stdout_log = True\<rparr>)
                    # entries w"
proof -
  obtain rname rcommand roptions where
    res: "resolveSpec Apps name command options = (rname, rcommand, roptions)"
    by (cases "resolveSpec Apps name command options") auto
  from Start_Inr [OF assms res] obtain w1 id' where
    r1: "(if Singleton roptions then ensureSingleton Apps w rname else (None, w)) = (None, w1)" and
    fresh: "getNextRandomID w1 (rand_reads env) = Some (Inr id')" and
    launch: "launchInstance env id' rname rcommand roptions w1 = (Inr inst, w')"
    by blast
  have "same_files w (snd (if Singleton roptions then ensureSingleton Apps w rname else (None, w)))"
    by (simp add: ensureSingleton_same_files)
  then have sf: "same_files w w1"
    by (simp only: r1 snd_conv)
  note ent = same_files_entries [OF sf]
  from getNextRandomID_fresh [OF fresh]
  have f1: "id' \<notin> fst ` set (entries w1)" and len: "length id' = 16" by auto
  from launchInstance_Inr_entries [OF launch f1] f1 len ent show ?thesis
    by simp
qed

lemma Stop_entries: "Stop w this = (e, w1) \<Longrightarrow> entries w1 = entries w"
  using same_files_entries [OF Stop_same_files [of w this]] by simp

lemma Clean_None:
  "Clean w name = (None, w2) \<Longrightarrow> name \<noteq> [] \<Longrightarrow>
   entries w2 = filter (\<lambda>e. fst e \<noteq> name) (entries w)"
  by (auto simp add: Clean_def os_RemoveAll_def entries_def split: option.splits)

lemma wellformed_store_ID:
  "wellformed_store w \<Longrightarrow> e \<in> set (entries w) \<Longrightarrow> record_of e = Some i \<Longrightarrow>
   ID i = fst e \<and> fst e \<noteq> []"
  by (auto simp add: wellformed_store_def list_all_iff)

lemma ex_restart:
  "map_option fst (Restart ex_apps (ex_env 2 200 ex_sleeper) ''0101010101010101'' False
     (ex_started ex_sleeper)) = Some (Inr ex_restarted)"
  by (simp add: run_defs ex_defs ex_restarted_def const_defs)


lemma ex_started_wellformed: "wellformed_store (ex_started p)"
  by (simp add: wellformed_store_def record_of_def entries_def ex_defs)

text \<open>A successful Start keeps the store well formed.\<close>

lemma Start_wellformed:
  assumes "wellformed_store w" and "Start Apps env name command options w = Some (Inr inst, w')"
  shows "wellformed_store w'"
proof -
  from Start_Inr_entries [OF assms(2)]
  have fresh: "ID inst \<notin> fst ` set (entries w)" and len: "length (ID inst) = 16"
    and ent: "entries w' = (ID inst, \<lparr>info = Info inst, stderr_log = True, stdout_log = True\<rparr>)
                    # entries w"
    by simp_all
  from len have "ID inst \<noteq> []" by auto
  with assms(1) fresh show ?thesis
    by (simp add: wellformed_store_def ent record_of_def)
qed

text \<open>
  C6, as the code has it. Restart of a store that is well formed loads the record of the
  name, stops it, and returns what Start returns for the name, the command and the options
  of that record. The entries of the root afterwards are the new entry, under an
  identifier that names none of the others, followed by the entries of before as they
  were, without the entry of the old instance when clean is set. When clean is not set
  the new identifier differs from the old one. (When clean is set the old directory is
  removed before the identifier is allocated, and the identifier may be the old one.)
\<close>

theorem Restart_new_record:
  assumes "Restart Apps env id' clean w = Some (Inr new, w')"
      and "wellformed_store w"
  shows "\<exists>old. GetInstance w id' = Inr (Some old) \<and> ID old = id' \<and>
     Start Apps env (Name old) (Command old) (Options old)
       (if clean then snd (Clean (snd (Stop w old)) (ID old)) else snd (Stop w old)) =
       Some (Inr new, w') \<and>
     entries w' = (ID new, \<lparr>info = Info new, stderr_log = True, stdout_log = True\<rparr>)
                    # (if clean then filter (\<lambda>e. fst e \<noteq> id') (entries w) else entries w) \<and>
     ID new \<notin> fst ` set (if clean then filter (\<lambda>e. fst e \<noteq> id') (entries w) else entries w) \<and>
     (\<not> clean \<longrightarrow> ID new \<noteq> id')"
proof -
  from Restart_Inr [OF assms(1)] obtain old w1 where
    get: "GetInstance w id' = Inr (Some old)" and stop: "Stop w old = (None, w1)" and
    rest: "if clean
      then (\<exists>w2. Clean w1 (ID old) = (None, w2) \<and>
              Start Apps env (Name old) (Command old) (Options old) w2 = Some (Inr new, w'))
      else Start Apps env (Name old) (Command old) (Options old) w1 = Some (Inr new, w')"
    by blast
  from GetInstance_Some [OF get] obtain e where
    e: "e \<in> set (entries w)" "fst e = id'" "record_of e = Some old"
    by blast
  from wellformed_store_ID [OF assms(2) e(1) e(3)] e(2)
  have idold: "ID old = id'" and ne: "id' \<noteq> []" by simp_all
  note ent1 = Stop_entries [OF stop]
  show ?thesis
  proof (cases clean)
    case False
    with rest have start: "Start Apps env (Name old) (Command old) (Options old) w1 =
        Some (Inr new, w')" by simp
    from Start_Inr_entries [OF start] ent1
    have "ID new \<notin> fst ` set (entries w)"
      "entries w' = (ID new, \<lparr>info = Info new, stderr_log = True, stdout_log = True\<rparr>)
                    # entries w"
      by simp_all
    moreover from this(1) e(1,2) have "ID new \<noteq> id'" by force
    ultimately show ?thesis
      using get idold start stop False by simp
  next
    case True
    with rest obtain w2 where cl: "Clean w1 (ID old) = (None, w2)" and
      start: "Start Apps env (Name old) (Command old) (Options old) w2 = Some (Inr new, w')"
      by auto
    from Clean_None [OF cl] idold ne ent1
    have ent2: "entries w2 = filter (\<lambda>e. fst e \<noteq> id') (entries w)" by simp
    from Start_Inr_entries [OF start] ent2
    have "ID new \<notin> fst ` set (filter (\<lambda>e. fst e \<noteq> id') (entries w))"
      "entries w' = (ID new, \<lparr>info = Info new, stderr_log = True, stdout_log = True\<rparr>)
                    # filter (\<lambda>e. fst e \<noteq> id') (entries w)"
      by simp_all
    then show ?thesis
      using get idold start stop cl True by simp
  qed
qed

theorem Restart_new_record_witness:
  "map_option fst (Restart ex_apps (ex_env 2 200 ex_sleeper) ''0101010101010101'' False
     (ex_started ex_sleeper)) = Some (Inr ex_restarted) \<and>
   wellformed_store (ex_started ex_sleeper) \<and>
   ID ex_restarted \<noteq> ''0101010101010101'' \<and>
   entries (snd (the (Restart ex_apps (ex_env 2 200 ex_sleeper) ''0101010101010101'' False
     (ex_started ex_sleeper)))) =
     [(''0202020202020202'', ex_dir (Info ex_restarted)),
      (''0101010101010101'', ex_dir (Info ex_first))]"
proof -
  from ex_restart obtain w' where
    r: "Restart ex_apps (ex_env 2 200 ex_sleeper) ''0101010101010101'' False
          (ex_started ex_sleeper) = Some (Inr ex_restarted, w')"
    by (cases "Restart ex_apps (ex_env 2 200 ex_sleeper) ''0101010101010101'' False
          (ex_started ex_sleeper)") auto
  from Restart_new_record [OF r ex_started_wellformed]
  have "entries w' = (ID ex_restarted,
      \<lparr>info = Info ex_restarted, stderr_log = True, stdout_log = True\<rparr>)
        # entries (ex_started ex_sleeper)"
    by auto
  moreover have "entries (ex_started ex_sleeper) =
      [(''0101010101010101'', ex_dir (Info ex_first))]"
    by (simp add: ex_started_def entries_def)
  moreover have "ID ex_restarted = ''0202020202020202''"
    by (simp add: ex_restarted_def)
  ultimately show ?thesis
    using ex_restart ex_started_wellformed [of ex_sleeper]
    by (simp add: r ex_dir_def)
qed


text \<open>With clean set, the random bytes 01 give the restarted instance the identifier of
  the instance it replaces.\<close>

theorem Restart_fresh_id_counterexample:
  "wellformed_store (ex_started ex_sleeper) \<and>
   GetInstance (ex_started ex_sleeper) ''0101010101010101'' = Inr (Some ex_first) \<and>
   map_option (map_sum id ID \<circ> fst)
     (Restart ex_apps (ex_env 1 200 ex_sleeper) ''0101010101010101'' True
        (ex_started ex_sleeper)) = Some (Inr ''0101010101010101'')"
  by (simp add: run_defs ex_defs const_defs wellformed_store_def record_of_def)




subsection \<open>CleanAll\<close>

lemma GetStatus_cong:
  "procs w' = procs w \<Longrightarrow> no_handle w' = no_handle w \<Longrightarrow> GetStatus w' i = GetStatus w i"
  by (simp add: GetStatus_cases)

lemma RemoveInstance_result:
  "RemoveInstance w name =
     (case remove_err w name of
        Some err \<Rightarrow> (Some err, w)
      | None \<Rightarrow> (None, w\<lparr>root := (if name = [] then None
                                    else map_option (filter (\<lambda>e. fst e \<noteq> name)) (root w))\<rparr>))"
  by (simp add: RemoveInstance_def os_RemoveAll_def split: option.splits)

lemma RemoveInstance_frame:
  assumes "RemoveInstance w name = (r, w')"
  shows "procs w' = procs w \<and> no_handle w' = no_handle w \<and> trace w' = trace w \<and>
     remove_err w' = remove_err w \<and> readdir_err w' = readdir_err w \<and> stat_err w' = stat_err w"
  using assms by (cases "remove_err w name") (auto simp add: RemoveInstance_result)

lemma RemoveInstance_entries:
  assumes "RemoveInstance w name = (None, w')" and "name \<noteq> []"
  shows "entries w' = filter (\<lambda>e. fst e \<noteq> name) (entries w)"
  using assms
  by (cases "remove_err w name"; cases "root w") (auto simp add: RemoveInstance_result entries_def)

lemma RemoveInstance_error:
  assumes "RemoveInstance w name = (Some err, w')"
  shows "w' = w"
  using assms by (cases "remove_err w name") (auto simp add: RemoveInstance_result)

lemma cleanLoop_frame:
  "cleanLoop w insts = (r, w') \<Longrightarrow>
   procs w' = procs w \<and> no_handle w' = no_handle w \<and> trace w' = trace w"
proof (induction insts arbitrary: w)
  case Nil
  then show ?case by simp
next
  case (Cons i insts)
  show ?case
  proof (cases "fst (GetStatus w i) = StatusExited")
    case False
    with Cons.prems have "cleanLoop w insts = (r, w')" by simp
    from Cons.IH [OF this] show ?thesis .
  next
    case True
    obtain r2 w2 where rm: "RemoveInstance w (ID i) = (r2, w2)"
      by (cases "RemoveInstance w (ID i)") auto
    note fr = RemoveInstance_frame [OF rm]
    show ?thesis
    proof (cases r2)
      case (Some err)
      with True rm Cons.prems have "w' = w2" by simp
      with fr show ?thesis by simp
    next
      case None
      with True rm Cons.prems have "cleanLoop w2 insts = (r, w')" by simp
      from Cons.IH [OF this] fr show ?thesis by simp
    qed
  qed
qed

lemma cleanLoop_None_entries:
  "cleanLoop w insts = (None, w') \<Longrightarrow> \<forall>i\<in>set insts. ID i \<noteq> [] \<Longrightarrow>
   entries w' =
     filter (\<lambda>e. fst e \<notin> ID ` {i \<in> set insts. fst (GetStatus w i) = StatusExited}) (entries w)"
proof (induction insts arbitrary: w)
  case Nil
  then show ?case by simp
next
  case (Cons i insts)
  from Cons.prems(2) have ne: "ID i \<noteq> []" and rest: "\<forall>i\<in>set insts. ID i \<noteq> []"
    by simp_all
  show ?case
  proof (cases "fst (GetStatus w i) = StatusExited")
    case False
    with Cons.prems(1) have "cleanLoop w insts = (None, w')" by simp
    from Cons.IH [OF this rest]
    have "entries w' = filter (\<lambda>e. fst e \<notin>
        ID ` {i \<in> set insts. fst (GetStatus w i) = StatusExited}) (entries w)" .
    moreover from False
    have "{j \<in> set (i # insts). fst (GetStatus w j) = StatusExited} =
        {j \<in> set insts. fst (GetStatus w j) = StatusExited}"
      by auto
    ultimately show ?thesis by (simp only:)
  next
    case True
    obtain r2 w2 where rm: "RemoveInstance w (ID i) = (r2, w2)"
      by (cases "RemoveInstance w (ID i)") auto
    from True rm Cons.prems(1) have r2: "r2 = None"
      by (cases r2) simp_all
    with True rm Cons.prems(1) have loop: "cleanLoop w2 insts = (None, w')" by simp
    from RemoveInstance_frame [OF rm]
    have st: "GetStatus w2 j = GetStatus w j" for j
      by (intro GetStatus_cong) simp_all
    from RemoveInstance_entries [OF rm [unfolded r2] ne]
    have e2: "entries w2 = filter (\<lambda>e. fst e \<noteq> ID i) (entries w)" .
    from Cons.IH [OF loop rest]
    have "entries w' = filter (\<lambda>e. fst e \<notin>
        ID ` {i \<in> set insts. fst (GetStatus w i) = StatusExited})
          (filter (\<lambda>e. fst e \<noteq> ID i) (entries w))"
      by (simp only: st e2)
    moreover from True
    have "{j \<in> set (i # insts). fst (GetStatus w j) = StatusExited} =
        insert i {j \<in> set insts. fst (GetStatus w j) = StatusExited}"
      by auto
    moreover have "filter (\<lambda>e. fst e \<notin> ID ` S) (filter (\<lambda>e. fst e \<noteq> ID i) xs) =
        filter (\<lambda>e. fst e \<notin> ID ` insert i S) xs" for S and xs :: "(string \<times> instance_dir) list"
      by (induction xs) auto
    ultimately show ?thesis by (simp only:)
  qed
qed

lemma cleanLoop_keeps:
  "cleanLoop w insts = (r, w') \<Longrightarrow> \<forall>i\<in>set insts. ID i \<noteq> [] \<Longrightarrow>
   set (entries w') \<subseteq> set (entries w) \<and>
   (\<forall>e\<in>set (entries w).
      fst e \<notin> ID ` {i \<in> set insts. fst (GetStatus w i) = StatusExited} \<longrightarrow>
      e \<in> set (entries w'))"
proof (induction insts arbitrary: w)
  case Nil
  then show ?case by simp
next
  case (Cons i insts)
  from Cons.prems(2) have ne: "ID i \<noteq> []" and rest: "\<forall>i\<in>set insts. ID i \<noteq> []"
    by simp_all
  show ?case
  proof (cases "fst (GetStatus w i) = StatusExited")
    case False
    with Cons.prems(1) have "cleanLoop w insts = (r, w')" by simp
    from Cons.IH [OF this rest] False show ?thesis by auto
  next
    case True
    obtain r2 w2 where rm: "RemoveInstance w (ID i) = (r2, w2)"
      by (cases "RemoveInstance w (ID i)") auto
    show ?thesis
    proof (cases r2)
      case (Some err)
      with True rm Cons.prems(1) have "w' = w2" by simp
      with RemoveInstance_error [OF rm [unfolded Some]] show ?thesis by simp
    next
      case None
      with True rm Cons.prems(1) have loop: "cleanLoop w2 insts = (r, w')" by simp
      from RemoveInstance_frame [OF rm]
      have st: "GetStatus w2 j = GetStatus w j" for j
        by (intro GetStatus_cong) simp_all
      from RemoveInstance_entries [OF rm [unfolded None] ne]
      have e2: "entries w2 = filter (\<lambda>e. fst e \<noteq> ID i) (entries w)" .
      from Cons.IH [OF loop rest]
      have "set (entries w') \<subseteq> set (entries w2) \<and>
        (\<forall>e\<in>set (entries w2).
          fst e \<notin> ID ` {i \<in> set insts. fst (GetStatus w i) = StatusExited} \<longrightarrow>
          e \<in> set (entries w'))"
        unfolding st .
      moreover from True
      have "{j \<in> set (i # insts). fst (GetStatus w j) = StatusExited} =
          insert i {j \<in> set insts. fst (GetStatus w j) = StatusExited}"
        by auto
      ultimately show ?thesis
        unfolding e2 by (simp only:) auto
    qed
  qed
qed

lemma wellformed_store_names:
  assumes "wellformed_store w" and "e \<in> set (entries w)" and "e' \<in> set (entries w)"
      and "fst e = fst e'"
  shows "e = e'"
proof -
  from assms(1) have "inj_on fst (set (entries w))"
    by (simp add: wellformed_store_def distinct_map)
  with assms(2-4) show ?thesis
    by (auto dest: inj_onD)
qed

text \<open>In a well-formed store whose records all parse, an entry is named by the identifier
  of a listed instance with a property exactly when its own record has the property.\<close>

lemma wellformed_store_named:
  assumes wf: "wellformed_store w"
      and good: "\<forall>e\<in>set (entries w). record_of e \<noteq> None"
      and e: "e \<in> set (entries w)"
  shows "fst e \<in> ID ` {j \<in> (the \<circ> record_of) ` set (entries w). P j} \<longleftrightarrow>
         P (the (record_of e))"
proof
  assume "fst e \<in> ID ` {j \<in> (the \<circ> record_of) ` set (entries w). P j}"
  then obtain e' where e': "e' \<in> set (entries w)" "P (the (record_of e'))"
    "fst e = ID (the (record_of e'))"
    by auto
  from good e'(1) obtain j where j: "record_of e' = Some j" by auto
  from wellformed_store_ID [OF wf e'(1) j] e'(3) j have "fst e = fst e'" by simp
  from wellformed_store_names [OF wf e e'(1) this] e'(2) show "P (the (record_of e))"
    by simp
next
  assume p: "P (the (record_of e))"
  from good e obtain i where i: "record_of e = Some i" by auto
  from wellformed_store_ID [OF wf e i] have "fst e = ID i" by simp
  moreover from e i p have "i \<in> {j \<in> (the \<circ> record_of) ` set (entries w). P j}"
    by force
  ultimately show "fst e \<in> ID ` {j \<in> (the \<circ> record_of) ` set (entries w). P j}"
    by blast
qed

text \<open>The loop of CleanAll returns no error when no removal is refused.\<close>

lemma cleanLoop_progress:
  "\<forall>i\<in>set insts. remove_err w (ID i) = None \<Longrightarrow> fst (cleanLoop w insts) = None"
proof (induction insts arbitrary: w)
  case Nil
  then show ?case by simp
next
  case (Cons i insts)
  from Cons.prems have here: "remove_err w (ID i) = None"
    and rest: "\<forall>j\<in>set insts. remove_err w (ID j) = None"
    by simp_all
  show ?case
  proof (cases "fst (GetStatus w i) = StatusExited")
    case False
    with Cons.IH [OF rest] show ?thesis by simp
  next
    case True
    obtain r2 w2 where rm: "RemoveInstance w (ID i) = (r2, w2)"
      by (cases "RemoveInstance w (ID i)") auto
    with here have r2: "r2 = None"
      by (simp add: RemoveInstance_result)
    from RemoveInstance_frame [OF rm] have "remove_err w2 = remove_err w" by simp
    with rest have "\<forall>j\<in>set insts. remove_err w2 (ID j) = None" by simp
    from Cons.IH [OF this] True rm r2 show ?thesis by simp
  qed
qed

lemma CleanAll_progress:
  assumes wf: "wellformed_store w"
      and rd: "readdir_err w = None"
      and ok: "\<forall>e\<in>set (entries w). record_of e \<noteq> None \<and> remove_err w (fst e) = None"
  shows "fst (CleanAll w) = None"
proof -
  from ok have good: "\<forall>e\<in>set (entries w). passes None (fst e) \<longrightarrow> record_of e \<noteq> None"
    by simp
  from loadInstances_good [OF rd good, of None]
  have list: "List_instances w False =
      Inr (map (the \<circ> record_of) (sort_key fst (entries w)))"
    by (simp add: List_instances_def passes_def)
  have "\<forall>i\<in>set (map (the \<circ> record_of) (sort_key fst (entries w))).
      remove_err w (ID i) = None"
  proof
    fix i assume "i \<in> set (map (the \<circ> record_of) (sort_key fst (entries w)))"
    then obtain e where e: "e \<in> set (entries w)" "i = the (record_of e)"
      by auto
    with ok have "record_of e = Some i" by auto
    from wellformed_store_ID [OF wf e(1) this] ok e(1) show "remove_err w (ID i) = None"
      by simp
  qed
  from cleanLoop_progress [OF this] list show ?thesis
    by (simp add: CleanAll_def)
qed

text \<open>
  C5. In a well-formed store, CleanAll leaves every entry whose record has another status
  than Exited in the root as it is, directory and log files, and adds no entry; it sends
  no signal and changes no process. When it returns no error, the entries that remain are
  exactly those whose status is not Exited. It returns no error when the root can be
  listed, every record parses and no removal is refused.
\<close>

theorem CleanAll_removes_exited:
  assumes "wellformed_store w" and "CleanAll w = (result, w')"
  shows "(\<forall>e\<in>set (entries w). \<forall>i. record_of e = Some i \<and>
            fst (GetStatus w i) \<noteq> StatusExited \<longrightarrow> e \<in> set (entries w')) \<and>
         set (entries w') \<subseteq> set (entries w) \<and>
         (result = None \<longrightarrow>
            entries w' = filter (\<lambda>e. fst (GetStatus w (the (record_of e))) \<noteq> StatusExited)
                           (entries w)) \<and>
         procs w' = procs w \<and> trace w' = trace w \<and>
         (readdir_err w = None \<and>
            (\<forall>e\<in>set (entries w). record_of e \<noteq> None \<and> remove_err w (fst e) = None)
          \<longrightarrow> result = None)"
proof (cases "List_instances w False")
  case (Inl err)
  with assms(2) have same: "w' = w" "result = Some err"
    by (simp_all add: CleanAll_def)
  have "\<not> (readdir_err w = None \<and>
      (\<forall>e\<in>set (entries w). record_of e \<noteq> None \<and> remove_err w (fst e) = None))"
  proof
    assume "readdir_err w = None \<and>
      (\<forall>e\<in>set (entries w). record_of e \<noteq> None \<and> remove_err w (fst e) = None)"
    then have "fst (CleanAll w) = None"
      using CleanAll_progress [OF assms(1)] by blast
    with assms(2) same show False by simp
  qed
  with same show ?thesis by simp
next
  case (Inr insts)
  with assms(2) have loop: "cleanLoop w insts = (result, w')"
    by (simp add: CleanAll_def)
  from Inr have "loadInstances w None None = Inr insts"
    by (simp add: List_instances_def)
  from loadInstances_Inr [OF this]
  have good: "\<forall>e\<in>set (entries w). record_of e \<noteq> None"
    and insts: "insts = map (the \<circ> record_of) (sort_key fst (entries w))"
    by (simp_all add: passes_def)
  from insts have set_insts: "set insts = (the \<circ> record_of) ` set (entries w)"
    by simp
  have ne: "\<forall>i\<in>set insts. ID i \<noteq> []"
  proof
    fix i assume "i \<in> set insts"
    with set_insts obtain e where e: "e \<in> set (entries w)" "i = the (record_of e)"
      by auto
    with good have "record_of e = Some i" by auto
    from wellformed_store_ID [OF assms(1) e(1) this] show "ID i \<noteq> []" by simp
  qed
  have named: "fst e \<in> ID ` {j \<in> set insts. fst (GetStatus w j) = StatusExited} \<longleftrightarrow>
      fst (GetStatus w (the (record_of e))) = StatusExited" if "e \<in> set (entries w)" for e
    unfolding set_insts
    by (rule wellformed_store_named [OF assms(1) good that])
  from cleanLoop_keeps [OF loop ne]
  have sub: "set (entries w') \<subseteq> set (entries w)"
    and keep: "\<forall>e\<in>set (entries w).
      fst e \<notin> ID ` {i \<in> set insts. fst (GetStatus w i) = StatusExited} \<longrightarrow>
      e \<in> set (entries w')"
    by blast+
  have 1: "\<forall>e\<in>set (entries w). \<forall>i. record_of e = Some i \<and>
            fst (GetStatus w i) \<noteq> StatusExited \<longrightarrow> e \<in> set (entries w')"
    using keep named by auto
  have 3: "entries w' = filter (\<lambda>e. fst (GetStatus w (the (record_of e))) \<noteq> StatusExited)
                           (entries w)" if "result = None"
  proof -
    from cleanLoop_None_entries [OF loop [unfolded that] ne]
    have "entries w' = filter (\<lambda>e. fst e \<notin>
        ID ` {i \<in> set insts. fst (GetStatus w i) = StatusExited}) (entries w)" .
    also have "\<dots> = filter (\<lambda>e. fst (GetStatus w (the (record_of e))) \<noteq> StatusExited)
                           (entries w)"
      by (rule filter_cong [OF refl]) (simp add: named)
    finally show ?thesis .
  qed
  have 4: "result = None"
    if "readdir_err w = None"
      and "\<forall>e\<in>set (entries w). record_of e \<noteq> None \<and> remove_err w (fst e) = None"
    using CleanAll_progress [OF assms(1) that] assms(2) by simp
  from cleanLoop_frame [OF loop] 1 sub 3 4 show ?thesis
    by blast
qed

lemma ex_three_wellformed: "wellformed_store ex_three"
  by (simp add: wellformed_store_def record_of_def entries_def ex_defs ex_three_def ex_third_def)

lemma ex_three_clean:
  "CleanAll ex_three =
     (None, ex_three\<lparr>root := Some [(''0101010101010101'', ex_dir (Info ex_first))]\<rparr>)"
  by (simp add: CleanAll_def List_instances_def RemoveInstance_def run_defs const_defs
      ex_defs ex_three_def ex_third_def)

theorem CleanAll_removes_exited_witness:
  "wellformed_store ex_three \<and>
   readdir_err ex_three = None \<and>
   list_all (\<lambda>e. record_of e \<noteq> None \<and> remove_err ex_three (fst e) = None)
     (entries ex_three) \<and>
   map (\<lambda>e. fst (GetStatus ex_three (the (record_of e)))) (entries ex_three) =
     [StatusRunning, StatusExited, StatusExited] \<and>
   CleanAll ex_three =
     (None, ex_three\<lparr>root := Some [(''0101010101010101'', ex_dir (Info ex_first))]\<rparr>) \<and>
   entries (ex_three\<lparr>root := Some [(''0101010101010101'', ex_dir (Info ex_first))]\<rparr>) =
     [(''0101010101010101'', \<lparr>info = Info ex_first, stderr_log = True, stdout_log = True\<rparr>)]"
proof -
  have st: "map (\<lambda>e. fst (GetStatus ex_three (the (record_of e)))) (entries ex_three) =
     [StatusRunning, StatusExited, StatusExited]"
    by (simp add: GetStatus_cases record_of_def entries_def ex_defs ex_three_def ex_third_def)
  have hyp: "readdir_err ex_three = None"
    "list_all (\<lambda>e. record_of e \<noteq> None \<and> remove_err ex_three (fst e) = None)
       (entries ex_three)"
    by (simp_all add: record_of_def entries_def ex_defs ex_three_def ex_third_def)
  from CleanAll_removes_exited [OF ex_three_wellformed ex_three_clean] ex_three_wellformed
    ex_three_clean st hyp
  show ?thesis
    by (simp add: ex_dir_def)
qed

subsection \<open>Singleton apps\<close>


lemma GetStatus_status:
  "GetStatus w i = (st, None) \<Longrightarrow> st \<noteq> StatusRunning \<Longrightarrow> st = StatusExited"
  by (auto simp add: GetStatus_cases const_defs split: option.splits if_splits)

















end
